theory Spec2Isabelle
  imports Complex_Main
begin

section \<open>Values shared by the endpoints\<close>

text \<open>
  Embeddings are vectors of numbers; timestamps (\<open>time.time()\<close>, \<open>datetime.now()\<close>) are
  seconds on the real line. Floating point is read as real arithmetic: no rounding and no
  NaN. The ISO text of a timestamp stored in a table is identified with the instant it
  denotes.
\<close>

type_synonym vec = "real list"
type_synonym timestamp = real

text \<open>A Python float that may be \<open>float('inf')\<close>, with Python's \<open><\<close>.\<close>

datatype pyfloat = Num real | PosInf

fun flt :: "pyfloat \<Rightarrow> pyfloat \<Rightarrow> bool" where
  "flt (Num a) (Num b) = (a < b)"
| "flt (Num a) PosInf = True"
| "flt PosInf b = False"

text \<open>Truth value of an optional string (\<open>None\<close> and \<open>''\<close> are false).\<close>

fun truthy :: "string option \<Rightarrow> bool" where
  "truthy None = False"
| "truthy (Some s) = (s \<noteq> [])"

text \<open>\<open>int(x)\<close> of a float: truncation toward zero.\<close>

definition py_int :: "real \<Rightarrow> int" where
  "py_int x = (if 0 \<le> x then \<lfloor>x\<rfloor> else \<lceil>x\<rceil>)"

text \<open>\<open>str.lower()\<close> on ASCII text and the substring test \<open>sub in s\<close>.\<close>

definition lower_char :: "char \<Rightarrow> char" where
  "lower_char c =
     (case map_of (zip ''ABCDEFGHIJKLMNOPQRSTUVWXYZ'' ''abcdefghijklmnopqrstuvwxyz'') c of
        Some d \<Rightarrow> d
      | None \<Rightarrow> c)"

definition py_lower :: "string \<Rightarrow> string" where
  "py_lower s = map lower_char s"

fun py_in :: "string \<Rightarrow> string \<Rightarrow> bool" where
  "py_in sub [] = (sub = [])"
| "py_in sub (c # cs) = (take (length sub) (c # cs) = sub \<or> py_in sub cs)"

section \<open>The tables of the store\<close>

record session_row =
  sr_id :: nat
  sr_session_id :: string
  sr_subject :: string
  sr_department :: string
  sr_year :: string
  sr_division :: string
  sr_date :: "string option"
  sr_start_time :: "timestamp option"
  sr_end_time :: "timestamp option"
  sr_ended_at :: "timestamp option"
  sr_status :: string

record student_row =
  st_id :: nat
  st_student_id :: string
  st_student_name :: string
  st_department :: string
  st_year :: string
  st_division :: string
  st_embeddings :: "vec list option"

record attendance_row =
  ar_session_id :: nat
  ar_student_id :: nat
  ar_student_enrollment :: string
  ar_student_name :: string
  ar_status :: string
  ar_confidence :: real
  ar_marked_at :: timestamp

text \<open>
  Every request the code sends to the store is written to \<open>calls\<close>, so that a theorem can
  say which requests an endpoint made. \<open>timers\<close> holds the \<open>threading.Timer\<close> objects
  that were started and have not fired: the instant each is due and the session id it was
  given.
\<close>

datatype db_call =
    SelectSession string
  | SelectAttendanceOfSession nat
  | SelectAttendanceOfStudent nat string
  | SelectStudentsWithEmbeddings
  | SelectStudentsOfClass "string option" "string option" "string option"
  | InsertAttendance attendance_row
  | InsertSession session_row
  | UpdateSession string

record system =
  sessions :: "session_row list"
  attendance :: "attendance_row list"
  students :: "student_row list"
  calls :: "db_call list"
  timers :: "(timestamp \<times> string) list"

text \<open>
  What the store answers to an insert: the inserted row (\<open>result.data\<close> non-empty), an empty
  \<open>result.data\<close>, or an exception with its text.
\<close>

datatype insert_reply = Inserted | NoData | Raised string

text \<open>
  The application configuration (\<open>MODEL_MANAGER\<close>, \<open>SUPABASE\<close>, \<open>THRESHOLD\<close>) together
  with what lies outside the repository: \<open>scipy.spatial.distance.cosine\<close>,
  \<open>numpy.mean(_, axis=0)\<close>, and the way the store answers inserts, given the table as it
  is and the row to insert.
\<close>

record config =
  models_ready :: bool
  supabase_configured :: bool
  THRESHOLD :: real
  cosine :: "vec \<Rightarrow> vec \<Rightarrow> real"
  np_mean :: "vec list \<Rightarrow> vec"
  attendance_insert :: "attendance_row list \<Rightarrow> attendance_row \<Rightarrow> insert_reply"
  session_insert :: "session_row list \<Rightarrow> session_row \<Rightarrow> insert_reply"

subsection \<open>Queries\<close>

definition log_call :: "db_call \<Rightarrow> system \<Rightarrow> system" where
  "log_call c s = s\<lparr>calls := calls s @ [c]\<rparr>"

definition select_session :: "string \<Rightarrow> system \<Rightarrow> session_row list \<times> system" where
  "select_session sid s =
     (filter (\<lambda>r. sr_session_id r = sid) (sessions s), log_call (SelectSession sid) s)"

definition select_attendance_of_session :: "nat \<Rightarrow> system \<Rightarrow> attendance_row list \<times> system" where
  "select_attendance_of_session k s =
     (filter (\<lambda>r. ar_session_id r = k) (attendance s), log_call (SelectAttendanceOfSession k) s)"

definition select_attendance_of_student ::
    "nat \<Rightarrow> string \<Rightarrow> system \<Rightarrow> attendance_row list \<times> system" where
  "select_attendance_of_student k enr s =
     (filter (\<lambda>r. ar_session_id r = k \<and> ar_student_enrollment r = enr) (attendance s),
      log_call (SelectAttendanceOfStudent k enr) s)"

definition select_students_with_embeddings :: "system \<Rightarrow> student_row list \<times> system" where
  "select_students_with_embeddings s =
     (filter (\<lambda>r. st_embeddings r \<noteq> None) (students s), log_call SelectStudentsWithEmbeddings s)"

definition insert_attendance ::
    "config \<Rightarrow> attendance_row \<Rightarrow> system \<Rightarrow> insert_reply \<times> system" where
  "insert_attendance cfg row s =
     (let reply = attendance_insert cfg (attendance s) row;
          s' = log_call (InsertAttendance row) s
      in (reply, if reply = Inserted then s'\<lparr>attendance := attendance s' @ [row]\<rparr> else s'))"

section \<open>\<open>/real-mark\<close>: \<open>mark_attendance_with_duplicate_prevention\<close>\<close>

text \<open>
  The image pipeline (decoding, MTCNN, DeepFace) is outside the engine. An image is
  represented by what the pipeline makes of it: decoding raises, or a list of detected
  faces, each with its box and the result of \<open>extract_embedding_optimized\<close> on its crop.
\<close>

record face =
  box :: "int \<times> int \<times> int \<times> int"
  embedding :: "vec option"

datatype image_outcome = Undecodable | Faces "face list"

record mark_request =
  mr_session_id :: "string option"
  mr_image :: "image_outcome option"

datatype face_status = MarkedPresent | Duplicate | NoMatch | FaceError

text \<open>
  One entry of \<open>results\<close>. The distance is kept as computed (the source rounds it to four
  places for display); the confidence and the message, derived from it, are left out.
\<close>

record face_result =
  fr_match :: "(string \<times> string) option"
  fr_distance :: "real option"
  fr_box :: "int \<times> int \<times> int \<times> int"
  fr_status :: face_status
  fr_already_marked :: "bool option"

datatype mark_response =
    ErrorResp nat string
  | NoFacesDetected
  | Marked "face_result list"

text \<open>The scan of lines 544--559: the student nearest to \<open>emb\<close>, first minimum wins.\<close>

fun best_student ::
    "config \<Rightarrow> vec \<Rightarrow> student_row list \<Rightarrow> student_row option \<times> pyfloat
       \<Rightarrow> student_row option \<times> pyfloat" where
  "best_student cfg emb [] acc = acc"
| "best_student cfg emb (student # rest) (best, min_d) =
     (case st_embeddings student of
        None \<Rightarrow> best_student cfg emb rest (best, min_d)
      | Some stored_embeddings \<Rightarrow>
          if stored_embeddings = [] then best_student cfg emb rest (best, min_d)
          else
            let d = cosine cfg emb (np_mean cfg stored_embeddings) in
            if flt (Num d) min_d then best_student cfg emb rest (Some student, Num d)
            else best_student cfg emb rest (best, min_d))"

definition conflict_message :: "string \<Rightarrow> bool" where
  "conflict_message msg =
     (py_in ''duplicate key'' (py_lower msg) \<or> py_in ''unique constraint'' (py_lower msg))"

fun distance_of :: "pyfloat \<Rightarrow> real option" where
  "distance_of (Num d) = Some d"
| "distance_of PosInf = None"

type_synonym mark_state =
  "(string \<rightharpoonup> string \<times> timestamp) \<times> system \<times> face_result list"

text \<open>The body of the loop over the detected faces (lines 531--682).\<close>

definition mark_face ::
    "config \<Rightarrow> timestamp \<Rightarrow> session_row \<Rightarrow> student_row list \<Rightarrow> face \<Rightarrow> mark_state
       \<Rightarrow> mark_state" where
  "mark_face cfg now session_doc studs f st =
     (case st of (already_present_students, s, results) \<Rightarrow>
      (case embedding f of
         None \<Rightarrow>
           (already_present_students, s,
            results @ [\<lparr>fr_match = None, fr_distance = None, fr_box = box f,
                        fr_status = FaceError, fr_already_marked = None\<rparr>])
       | Some emb \<Rightarrow>
          (case best_student cfg emb studs (None, PosInf) of (best, min_d) \<Rightarrow>
           (case (if flt min_d (Num (THRESHOLD cfg)) then best else None) of
              None \<Rightarrow>
                (already_present_students, s,
                 results @ [\<lparr>fr_match = None, fr_distance = distance_of min_d, fr_box = box f,
                             fr_status = NoMatch, fr_already_marked = None\<rparr>])
            | Some student \<Rightarrow>
                let student_id = st_student_id student;
                    student_name = st_student_name student;
                    entry = (\<lambda>status marked.
                      \<lparr>fr_match = Some (student_id, student_name),
                       fr_distance = distance_of min_d, fr_box = box f,
                       fr_status = status, fr_already_marked = Some marked\<rparr>)
                in
                if student_id \<in> dom already_present_students then
                  (already_present_students, s, results @ [entry Duplicate True])
                else
                  (case select_attendance_of_student (sr_id session_doc) student_id s of
                     (final_check, s1) \<Rightarrow>
                     if final_check \<noteq> [] then
                       (already_present_students, s1, results @ [entry Duplicate True])
                     else
                       let attendance_record =
                             \<lparr>ar_session_id = sr_id session_doc,
                              ar_student_id = st_id student,
                              ar_student_enrollment = student_id,
                              ar_student_name = student_name,
                              ar_status = ''present'',
                              ar_confidence = (1 - (case min_d of Num d \<Rightarrow> d | PosInf \<Rightarrow> 0)) * 100,
                              ar_marked_at = now\<rparr>
                       in
                       (case insert_attendance cfg attendance_record s1 of
                          (Inserted, s2) \<Rightarrow>
                            (already_present_students(student_id \<mapsto> (student_name, now)), s2,
                             results @ [entry MarkedPresent False])
                        | (NoData, s2) \<Rightarrow>
                            (already_present_students, s2, results @ [entry FaceError False])
                        | (Raised db_error, s2) \<Rightarrow>
                            if conflict_message db_error then
                              (already_present_students, s2, results @ [entry Duplicate True])
                            else
                              (already_present_students, s2, results @ [entry FaceError False])))))))"

fun mark_faces ::
    "config \<Rightarrow> timestamp \<Rightarrow> session_row \<Rightarrow> student_row list \<Rightarrow> face list \<Rightarrow> mark_state
       \<Rightarrow> mark_state" where
  "mark_faces cfg now session_doc studs [] st = st"
| "mark_faces cfg now session_doc studs (f # fs) st =
     mark_faces cfg now session_doc studs fs (mark_face cfg now session_doc studs f st)"

text \<open>The dictionary built from the records already stored for the session (lines 514--520).\<close>

definition already_present_of ::
    "attendance_row list \<Rightarrow> (string \<rightharpoonup> string \<times> timestamp)" where
  "already_present_of marked =
     foldl (\<lambda>m record. m(ar_student_enrollment record \<mapsto>
                           (ar_student_name record, ar_marked_at record))) Map.empty marked"

definition real_mark ::
    "config \<Rightarrow> timestamp \<Rightarrow> mark_request \<Rightarrow> system \<Rightarrow> mark_response \<times> system" where
  "real_mark cfg now req s =
     (if \<not> models_ready cfg then
        (ErrorResp 503 ''Face recognition models not initialized'', s)
      else if \<not> supabase_configured cfg then
        (ErrorResp 500 ''Database connection error'', s)
      else
        (case (mr_session_id req, mr_image req) of
           (Some session_id, Some img) \<Rightarrow>
             if session_id = [] then (ErrorResp 400 ''Missing session_id or image'', s)
             else
               (case img of
                  Undecodable \<Rightarrow> (ErrorResp 500 ''Attendance marking failed'', s)
                | Faces faces \<Rightarrow>
                    if length faces = 0 then (NoFacesDetected, s)
                    else
                      (case select_session session_id s of
                         ([], s1) \<Rightarrow> (ErrorResp 404 ''Session not found'', s1)
                       | (session_doc # others, s1) \<Rightarrow>
                           if sr_status session_doc \<noteq> ''active'' then
                             (ErrorResp 400 ''Session is not active'', s1)
                           else
                             (case select_attendance_of_session (sr_id session_doc) s1 of
                                (marked, s2) \<Rightarrow>
                                (case select_students_with_embeddings s2 of
                                   (studs, s3) \<Rightarrow>
                                   (case mark_faces cfg now session_doc studs faces
                                           (already_present_of marked, s3, []) of
                                      (already, s4, results) \<Rightarrow> (Marked results, s4))))))
         | _ \<Rightarrow> (ErrorResp 400 ''Missing session_id or image'', s)))"

text \<open>A sequence of \<open>/real-mark\<close> requests handled one after the other.\<close>

fun mark_calls ::
    "config \<Rightarrow> (timestamp \<times> mark_request) list \<Rightarrow> system \<Rightarrow> mark_response list \<times> system" where
  "mark_calls cfg [] s = ([], s)"
| "mark_calls cfg ((now, req) # rest) s =
     (case real_mark cfg now req s of
        (resp, s1) \<Rightarrow> (case mark_calls cfg rest s1 of (resps, s2) \<Rightarrow> (resp # resps, s2)))"

section \<open>Sessions: \<open>create_session\<close>, \<open>get_session_status\<close>, \<open>end_session\<close>, \<open>auto_close_session\<close>\<close>

text \<open>A JSON number, and \<open>int(_)\<close> of it.\<close>

datatype jnum = JInt int | JFloat real

fun int_of_jnum :: "jnum \<Rightarrow> int" where
  "int_of_jnum (JInt i) = i"
| "int_of_jnum (JFloat x) = py_int x"

text \<open>Decimal text of an integer, for \<open>f"session_{int(...)}"\<close>.\<close>

function str_nat :: "nat \<Rightarrow> string" where
  "str_nat n =
     (if n < 10 then [''0123456789'' ! n]
      else str_nat (n div 10) @ [''0123456789'' ! (n mod 10)])"
  by pat_completeness auto
termination
  by (relation "measure id") auto

definition str_int :: "int \<Rightarrow> string" where
  "str_int i = (if i < 0 then CHR ''-'' # str_nat (nat (- i)) else str_nat (nat i))"

record create_request =
  cr_date :: "string option"
  cr_subject :: "string option"
  cr_department :: "string option"
  cr_year :: "string option"
  cr_division :: "string option"
  cr_duration_minutes :: "jnum option"

record roster_entry =
  re_student_id :: string
  re_student_name :: string
  re_present :: bool
  re_marked_at :: "timestamp option"

record session_doc =
  sd_session_id :: string
  sd_duration_minutes :: int
  sd_created_at :: timestamp
  sd_scheduled_end_time :: timestamp
  sd_students :: "roster_entry list"

datatype create_response = CreateError nat string | Created session_doc

definition select_students_of_class ::
    "string option \<Rightarrow> string option \<Rightarrow> string option \<Rightarrow> system
       \<Rightarrow> student_row list \<times> system" where
  "select_students_of_class d y v s =
     (filter (\<lambda>r. (truthy d \<longrightarrow> Some (st_department r) = d)
                 \<and> (truthy y \<longrightarrow> Some (st_year r) = y)
                 \<and> (truthy v \<longrightarrow> Some (st_division r) = v)) (students s),
      log_call (SelectStudentsOfClass d y v) s)"

text \<open>
  The insert of a session row. The store assigns the row's \<open>id\<close>; it is taken to be the
  number of rows already in the table.
\<close>

definition insert_session :: "config \<Rightarrow> session_row \<Rightarrow> system \<Rightarrow> insert_reply \<times> system" where
  "insert_session cfg row s =
     (let reply = session_insert cfg (sessions s) row;
          s' = log_call (InsertSession row) s
      in (reply,
          if reply = Inserted
          then s'\<lparr>sessions := sessions s' @ [row\<lparr>sr_id := length (sessions s')\<rparr>]\<rparr>
          else s'))"

fun cut :: "nat \<Rightarrow> string option \<Rightarrow> string" where
  "cut n None = []"
| "cut n (Some t) = take n t"

definition create_session ::
    "config \<Rightarrow> timestamp \<Rightarrow> create_request \<Rightarrow> system \<Rightarrow> create_response \<times> system" where
  "create_session cfg now data s =
     (if \<not> supabase_configured cfg then (CreateError 500 ''Database connection error'', s)
      else
        let duration_minutes =
              (case cr_duration_minutes data of None \<Rightarrow> 20 | Some j \<Rightarrow> int_of_jnum j) in
        if duration_minutes < 5 \<or> duration_minutes > 120 then
          (CreateError 400 ''Duration must be between 5-120 minutes'', s)
        else
          let start_time = now;
              end_time = now + real_of_int duration_minutes * 60 in
          (case (if truthy (cr_department data) \<or> truthy (cr_year data) \<or> truthy (cr_division data)
                 then select_students_of_class
                        (cr_department data) (cr_year data) (cr_division data) s
                 else ([], s)) of
             (studs, s1) \<Rightarrow>
               let roster = map (\<lambda>r. \<lparr>re_student_id = st_student_id r,
                                        re_student_name = st_student_name r,
                                        re_present = False, re_marked_at = None\<rparr>) studs;
                   session_id = ''session_'' @ str_int (py_int now);
                   session_data =
                     \<lparr>sr_id = 0, sr_session_id = session_id,
                      sr_subject = cut 50 (cr_subject data),
                      sr_department = cut 50 (cr_department data),
                      sr_year = cut 20 (cr_year data),
                      sr_division = cut 10 (cr_division data),
                      sr_date = cr_date data,
                      sr_start_time = Some start_time, sr_end_time = Some end_time,
                      sr_ended_at = None, sr_status = ''active''\<rparr>
               in
               (case insert_session cfg session_data s1 of
                  (Inserted, s2) \<Rightarrow>
                    (Created \<lparr>sd_session_id = session_id, sd_duration_minutes = duration_minutes,
                              sd_created_at = start_time, sd_scheduled_end_time = end_time,
                              sd_students = roster\<rparr>,
                     s2\<lparr>timers := timers s2 @
                          [(now + real_of_int duration_minutes * 60, session_id)]\<rparr>)
                | (NoData, s2) \<Rightarrow>
                    (CreateError 500
                       ''Failed to save session: Failed to create session in database'', s2)
                | (Raised db_error, s2) \<Rightarrow>
                    (CreateError 500 (''Failed to save session: '' @ db_error), s2))))"

text \<open>
  \<open>update(...).eq('session_id', sid).execute()\<close>: every row of that session id is changed,
  and the changed rows are returned.
\<close>

definition update_session ::
    "string \<Rightarrow> (session_row \<Rightarrow> session_row) \<Rightarrow> system \<Rightarrow> session_row list \<times> system" where
  "update_session sid f s =
     (map f (filter (\<lambda>r. sr_session_id r = sid) (sessions s)),
      (log_call (UpdateSession sid) s)
        \<lparr>sessions := map (\<lambda>r. if sr_session_id r = sid then f r else r) (sessions s)\<rparr>)"

text \<open>The timer's callback. An exception of the store would be logged and swallowed.\<close>

definition auto_close_session :: "string \<Rightarrow> timestamp \<Rightarrow> system \<Rightarrow> system" where
  "auto_close_session session_id now s =
     snd (update_session session_id
            (\<lambda>r. r\<lparr>sr_status := ''ended'', sr_ended_at := Some now\<rparr>) s)"

text \<open>At \<open>now\<close>, every started timer that is due fires and runs its callback.\<close>

definition fire_timers :: "timestamp \<Rightarrow> system \<Rightarrow> system" where
  "fire_timers now s =
     foldl (\<lambda>s' t. auto_close_session (snd t) now s')
       (s\<lparr>timers := filter (\<lambda>t. now < fst t) (timers s)\<rparr>)
       (filter (\<lambda>t. fst t \<le> now) (timers s))"

datatype end_response = EndError nat string | EndOk

definition end_session ::
    "config \<Rightarrow> timestamp \<Rightarrow> string option \<Rightarrow> system \<Rightarrow> end_response \<times> system" where
  "end_session cfg now session_id s =
     (case session_id of
        None \<Rightarrow> (EndError 400 ''Missing session_id'', s)
      | Some sid \<Rightarrow>
          if sid = [] then (EndError 400 ''Missing session_id'', s)
          else if \<not> supabase_configured cfg then (EndError 500 ''Database connection error'', s)
          else
            (case update_session sid
                    (\<lambda>r. r\<lparr>sr_status := ''ended'', sr_end_time := Some now\<rparr>) s of
               (data, s1) \<Rightarrow>
                 if data = [] then (EndError 404 ''Session not found'', s1)
                 else (EndOk, s1)))"

datatype status_response = StatusError nat string | StatusOk string string int

definition remaining_minutes_until :: "timestamp \<Rightarrow> timestamp \<Rightarrow> int" where
  "remaining_minutes_until end_time now = max 0 (py_int ((end_time - now) / 60))"

definition get_session_status ::
    "config \<Rightarrow> timestamp \<Rightarrow> string \<Rightarrow> system \<Rightarrow> status_response \<times> system" where
  "get_session_status cfg now session_id s =
     (if \<not> supabase_configured cfg then (StatusError 500 ''Database connection error'', s)
      else
        (case select_session session_id s of
           ([], s1) \<Rightarrow> (StatusError 404 ''Session not found'', s1)
         | (session # others, s1) \<Rightarrow>
             (case (case sr_end_time session of
                      Some t \<Rightarrow> Some t
                    | None \<Rightarrow> map_option (\<lambda>t. t + 20 * 60) (sr_start_time session)) of
                Some scheduled_end_time \<Rightarrow>
                  if now \<ge> scheduled_end_time \<and> sr_status session = ''active'' then
                    (StatusOk session_id ''ended'' 0,
                     snd (update_session session_id (\<lambda>r. r\<lparr>sr_status := ''ended''\<rparr>) s1))
                  else
                    (StatusOk session_id (sr_status session)
                       (remaining_minutes_until scheduled_end_time now), s1)
              | None \<Rightarrow> (StatusOk session_id (sr_status session) 0, s1))))"

text \<open>The operations of the engine as events, each stamped with the clock when it runs.\<close>

datatype event =
    CreateSession create_request
  | EndSession "string option"
  | GetStatus string
  | TimersFire
  | RealMark mark_request

fun step :: "config \<Rightarrow> timestamp \<times> event \<Rightarrow> system \<Rightarrow> system" where
  "step cfg (now, CreateSession data) s = snd (create_session cfg now data s)"
| "step cfg (now, EndSession sid) s = snd (end_session cfg now sid s)"
| "step cfg (now, GetStatus sid) s = snd (get_session_status cfg now sid s)"
| "step cfg (now, TimersFire) s = fire_timers now s"
| "step cfg (now, RealMark req) s = snd (real_mark cfg now req s)"

definition run :: "config \<Rightarrow> (timestamp \<times> event) list \<Rightarrow> system \<Rightarrow> system" where
  "run cfg evs s = foldl (\<lambda>s' ev. step cfg ev s') s evs"

section \<open>The embedding caches and the matching functions\<close>

text \<open>
  The source of the students read by a cache (\<open>students_col\<close>, or the \<open>students\<close> table
  reached through \<open>supabase\<close>): its documents, whether a query reaches it or raises, and
  the queries it has received.
\<close>

record student_filter =
  sf_department :: "string option"
  sf_year :: "string option"
  sf_division :: "string option"

record collection =
  col_docs :: "student_row list"
  col_reachable :: bool
  col_finds :: "student_filter list"

definition matches_filter :: "student_filter \<Rightarrow> student_row \<Rightarrow> bool" where
  "matches_filter sel r =
     (st_embeddings r \<noteq> None
      \<and> (case sf_department sel of None \<Rightarrow> True | Some d \<Rightarrow> st_department r = d)
      \<and> (case sf_year sel of None \<Rightarrow> True | Some y \<Rightarrow> st_year r = y)
      \<and> (case sf_division sel of None \<Rightarrow> True | Some v \<Rightarrow> st_division r = v))"

definition col_find ::
    "student_filter \<Rightarrow> collection \<Rightarrow> (string + student_row list) \<times> collection" where
  "col_find sel col =
     (if col_reachable col then Inr (filter (matches_filter sel) (col_docs col))
      else Inl ''store unreachable'',
      col\<lparr>col_finds := col_finds col @ [sel]\<rparr>)"

record cached_student =
  cs_embedding :: vec
  cs_studentId :: string
  cs_studentName :: string

record scoped_student = cached_student +
  cs_department :: string
  cs_year :: string
  cs_division :: string

subsection \<open>\<open>AttendanceEmbeddingCache\<close> (teacher/attendance_records.py)\<close>

text \<open>
  The cache key, \<open>str(sorted(session_filter.items()))\<close>, is identified with the filter.
  A stored embedding in the flat format is read as the one-element list of that vector.
\<close>

record attendance_cache =
  cached_embeddings :: "student_filter \<rightharpoonup> scoped_student list"
  last_update :: "student_filter \<rightharpoonup> timestamp"

definition cache_duration :: real where
  "cache_duration = 600"

fun session_entries :: "config \<Rightarrow> student_row list \<Rightarrow> scoped_student list" where
  "session_entries cfg [] = []"
| "session_entries cfg (student # rest) =
     (case st_embeddings student of
        None \<Rightarrow> session_entries cfg rest
      | Some embeddings \<Rightarrow>
          if embeddings = [] then session_entries cfg rest
          else
            \<lparr>cs_embedding = np_mean cfg embeddings,
             cs_studentId = st_student_id student,
             cs_studentName = st_student_name student,
             cs_department = st_department student,
             cs_year = st_year student,
             cs_division = st_division student\<rparr> # session_entries cfg rest)"

definition get_session_embeddings ::
    "config \<Rightarrow> timestamp \<Rightarrow> student_filter \<Rightarrow> attendance_cache \<times> collection
       \<Rightarrow> (string + scoped_student list) \<times> attendance_cache \<times> collection" where
  "get_session_embeddings cfg current_time session_filter st =
     (case st of (cache, students_col) \<Rightarrow>
      if session_filter \<notin> dom (cached_embeddings cache)
         \<or> current_time - (case last_update cache session_filter of None \<Rightarrow> 0 | Some t \<Rightarrow> t)
             > cache_duration
      then
        (case col_find session_filter students_col of
           (Inl e, col') \<Rightarrow> (Inl e, cache, col')
         | (Inr studs, col') \<Rightarrow>
             (Inr (session_entries cfg studs),
              cache\<lparr>cached_embeddings :=
                       (cached_embeddings cache)(session_filter \<mapsto> session_entries cfg studs),
                     last_update := (last_update cache)(session_filter \<mapsto> current_time)\<rparr>,
              col'))
      else
        (case cached_embeddings cache session_filter of
           None \<Rightarrow> (Inl ''KeyError'', cache, students_col)
         | Some entry \<Rightarrow> (Inr entry, cache, students_col)))"

text \<open>The linear scan shared by both matching functions: the first minimum wins.\<close>

fun nearest ::
    "config \<Rightarrow> vec \<Rightarrow> 'a cached_student_scheme list
       \<Rightarrow> 'a cached_student_scheme option \<times> pyfloat
       \<Rightarrow> 'a cached_student_scheme option \<times> pyfloat" where
  "nearest cfg query_embedding [] acc = acc"
| "nearest cfg query_embedding (student_data # rest) (best_match, min_distance) =
     (let distance = cosine cfg query_embedding (cs_embedding student_data) in
      if flt (Num distance) min_distance
      then nearest cfg query_embedding rest (Some student_data, Num distance)
      else nearest cfg query_embedding rest (best_match, min_distance))"

definition best_of ::
    "config \<Rightarrow> vec \<Rightarrow> 'a cached_student_scheme list \<Rightarrow> real
       \<Rightarrow> 'a cached_student_scheme option \<times> pyfloat" where
  "best_of cfg query_embedding cached threshold =
     (if cached = [] then (None, PosInf)
      else
        (case nearest cfg query_embedding cached (None, PosInf) of
           (best_match, min_distance) \<Rightarrow>
             (if flt min_distance (Num threshold) then best_match else None, min_distance)))"

definition session_student_filter :: "session_row \<Rightarrow> student_filter" where
  "session_student_filter session_doc =
     \<lparr>sf_department = (if sr_department session_doc \<noteq> [] then Some (sr_department session_doc) else None),
      sf_year = (if sr_year session_doc \<noteq> [] then Some (sr_year session_doc) else None),
      sf_division = (if sr_division session_doc \<noteq> [] then Some (sr_division session_doc) else None)\<rparr>"

definition find_best_match_optimized_attendance ::
    "config \<Rightarrow> timestamp \<Rightarrow> vec \<Rightarrow> session_row \<Rightarrow> real \<Rightarrow> attendance_cache \<times> collection
       \<Rightarrow> (string + scoped_student option \<times> pyfloat) \<times> attendance_cache \<times> collection" where
  "find_best_match_optimized_attendance cfg now query_embedding session_doc threshold st =
     (case get_session_embeddings cfg now (session_student_filter session_doc) st of
        (Inl e, st') \<Rightarrow> (Inl e, st')
      | (Inr cached, st') \<Rightarrow> (Inr (best_of cfg query_embedding cached threshold), st'))"

subsection \<open>\<open>EmbeddingCache\<close> (student/demo_session.py)\<close>

record embedding_cache =
  student_embeddings :: "cached_student list option"
  ec_last_update :: timestamp

definition ec_cache_duration :: real where
  "ec_cache_duration = 300"

definition all_students :: student_filter where
  "all_students = \<lparr>sf_department = None, sf_year = None, sf_division = None\<rparr>"

fun demo_entries :: "config \<Rightarrow> student_row list \<Rightarrow> cached_student list" where
  "demo_entries cfg [] = []"
| "demo_entries cfg (student # rest) =
     (case st_embeddings student of
        None \<Rightarrow> demo_entries cfg rest
      | Some embeddings \<Rightarrow>
          if embeddings = [] then demo_entries cfg rest
          else
            \<lparr>cs_embedding = np_mean cfg embeddings,
             cs_studentId = st_student_id student,
             cs_studentName = st_student_name student\<rparr> # demo_entries cfg rest)"

definition get_embeddings ::
    "config \<Rightarrow> timestamp \<Rightarrow> embedding_cache \<times> collection
       \<Rightarrow> cached_student list \<times> embedding_cache \<times> collection" where
  "get_embeddings cfg current_time st =
     (case st of (cache, supabase) \<Rightarrow>
      if student_embeddings cache = None
         \<or> current_time - ec_last_update cache > ec_cache_duration
      then
        (case col_find all_students supabase of
           (Inl e, supabase') \<Rightarrow>
             (case student_embeddings cache of
                None \<Rightarrow> ([], cache\<lparr>student_embeddings := Some []\<rparr>, supabase')
              | Some kept \<Rightarrow> (kept, cache, supabase'))
         | (Inr data, supabase') \<Rightarrow>
             if data = [] then ([], cache\<lparr>student_embeddings := Some []\<rparr>, supabase')
             else
               (demo_entries cfg data,
                cache\<lparr>student_embeddings := Some (demo_entries cfg data),
                       ec_last_update := current_time\<rparr>,
                supabase'))
      else
        (case student_embeddings cache of
           None \<Rightarrow> ([], cache, supabase)
         | Some kept \<Rightarrow> (kept, cache, supabase)))"

definition find_best_match_optimized ::
    "config \<Rightarrow> timestamp \<Rightarrow> vec \<Rightarrow> real \<Rightarrow> embedding_cache \<times> collection
       \<Rightarrow> (cached_student option \<times> pyfloat) \<times> embedding_cache \<times> collection" where
  "find_best_match_optimized cfg now query_embedding threshold st =
     (case get_embeddings cfg now st of
        (cached, st') \<Rightarrow> (best_of cfg query_embedding cached threshold, st'))"

section \<open>Notions used to state the properties\<close>

text \<open>The student a detected face resolves to, if any (lines 532--561).\<close>

definition resolve_face :: "config \<Rightarrow> student_row list \<Rightarrow> face \<Rightarrow> student_row option" where
  "resolve_face cfg studs f =
     (case embedding f of
        None \<Rightarrow> None
      | Some emb \<Rightarrow>
          (case best_student cfg emb studs (None, PosInf) of
             (best, min_d) \<Rightarrow> if flt min_d (Num (THRESHOLD cfg)) then best else None))"

text \<open>
  A request resolves to the identity \<open>ident\<close> in a system: it names the session, its image
  has at least one face, and every face of it resolves to a student whose enrollment id is
  \<open>ident\<close> among the students that have embeddings.
\<close>

definition resolves_to :: "config \<Rightarrow> system \<Rightarrow> string \<Rightarrow> string \<Rightarrow> mark_request \<Rightarrow> bool" where
  "resolves_to cfg s sid ident req =
     (mr_session_id req = Some sid \<and>
      (case mr_image req of
         Some (Faces fs) \<Rightarrow>
           fs \<noteq> [] \<and>
           list_all (\<lambda>f. map_option st_student_id
                          (resolve_face cfg (filter (\<lambda>r. st_embeddings r \<noteq> None) (students s)) f)
                        = Some ident) fs
       | _ \<Rightarrow> False))"

text \<open>
  The students the scan of \<open>/real-mark\<close> does not skip (those with a non-empty list of
  stored embeddings), and the distance the scan computes for one of them.
\<close>

definition stored_of :: "student_row \<Rightarrow> vec list" where
  "stored_of r = (case st_embeddings r of None \<Rightarrow> [] | Some vs \<Rightarrow> vs)"

definition usable :: "student_row list \<Rightarrow> student_row list" where
  "usable studs = filter (\<lambda>r. stored_of r \<noteq> []) studs"

definition student_distance :: "config \<Rightarrow> vec \<Rightarrow> student_row \<Rightarrow> real" where
  "student_distance cfg emb r = cosine cfg emb (np_mean cfg (stored_of r))"

definition present_records :: "nat \<Rightarrow> string \<Rightarrow> system \<Rightarrow> attendance_row list" where
  "present_records k ident s =
     filter (\<lambda>r. ar_session_id r = k \<and> ar_student_enrollment r = ident
                 \<and> ar_status r = ''present'') (attendance s)"

definition same_key :: "attendance_row \<Rightarrow> attendance_row \<Rightarrow> bool" where
  "same_key a b =
     (ar_session_id a = ar_session_id b \<and> ar_student_enrollment a = ar_student_enrollment b)"

text \<open>A store that accepts every attendance row whose (session, identity) pair is new.\<close>

definition accepts_new_rows :: "config \<Rightarrow> bool" where
  "accepts_new_rows cfg =
     (\<forall>tbl row. list_all (\<lambda>r. \<not> same_key r row) tbl \<longrightarrow> attendance_insert cfg tbl row = Inserted)"

fun statuses_of :: "mark_response \<Rightarrow> face_status list" where
  "statuses_of (Marked results) = map fr_status results"
| "statuses_of other = []"

fun insert_calls_for :: "string \<Rightarrow> db_call list \<Rightarrow> nat" where
  "insert_calls_for ident [] = 0"
| "insert_calls_for ident (InsertAttendance row # cs) =
     (if ar_student_enrollment row = ident then Suc (insert_calls_for ident cs)
      else insert_calls_for ident cs)"
| "insert_calls_for ident (c # cs) = insert_calls_for ident cs"

text \<open>
  From one system to a later one, every session row is still in its place under its session
  id, and a row whose status was \<open>ended\<close> still has that status.
\<close>

definition keeps_ended :: "system \<Rightarrow> system \<Rightarrow> bool" where
  "keeps_ended s s' =
     (length (sessions s) \<le> length (sessions s') \<and>
      (\<forall>i<length (sessions s).
         sr_session_id (sessions s' ! i) = sr_session_id (sessions s ! i) \<and>
         (sr_status (sessions s ! i) = ''ended'' \<longrightarrow> sr_status (sessions s' ! i) = ''ended'')))"

section \<open>A classroom used for concrete runs\<close>

text \<open>
  The distance of the runs is the cosine distance as \<open>scipy.spatial.distance.cosine\<close>
  computes it on real vectors of equal length, one minus the inner product over the
  product of the norms; the mean is the component-wise mean; and the store is PostgreSQL
  with a unique constraint on (session, enrollment), which answers a conflicting insert
  with the text below.
\<close>

definition dot :: "vec \<Rightarrow> vec \<Rightarrow> real" where
  "dot u v = sum_list (map2 (*) u v)"

definition cosine_distance :: "vec \<Rightarrow> vec \<Rightarrow> real" where
  "cosine_distance u v = 1 - dot u v / (sqrt (dot u u) * sqrt (dot v v))"

definition mean_vec :: "vec list \<Rightarrow> vec" where
  "mean_vec vs =
     (case vs of
        [] \<Rightarrow> []
      | v # rest \<Rightarrow> map (\<lambda>x. x / real (length vs)) (foldl (map2 (+)) v rest))"

definition unique_violation :: "string \<Rightarrow> string" where
  "unique_violation c =
     ''duplicate key value violates unique constraint '' @ [CHR 0x22] @ c @ [CHR 0x22]"

definition constrained_insert :: "attendance_row list \<Rightarrow> attendance_row \<Rightarrow> insert_reply" where
  "constrained_insert tbl row =
     (if list_all (\<lambda>r. \<not> same_key r row) tbl then Inserted
      else Raised (unique_violation ''attendance_records_session_student_key''))"

definition room_config :: config where
  "room_config =
     \<lparr>models_ready = True, supabase_configured = True, THRESHOLD = 6 / 10,
      cosine = cosine_distance, np_mean = mean_vec,
      attendance_insert = constrained_insert,
      session_insert = (\<lambda>tbl row. Inserted)\<rparr>"

text \<open>
  A failure of the store on an insert is either the violation of a unique constraint, whose
  text is PostgreSQL's for the named constraint, or another failure with a text of its
  own. \<open>failing_config\<close> is the configuration of the room when every insert of an
  attendance row fails in the given way (for a violation: another request has inserted the
  row between the final check and the insert).
\<close>

datatype store_failure = UniqueViolation string | OtherFailure string

fun failure_text :: "store_failure \<Rightarrow> string" where
  "failure_text (UniqueViolation c) = unique_violation c"
| "failure_text (OtherFailure msg) = msg"

definition failing_config :: "store_failure \<Rightarrow> config" where
  "failing_config fl =
     room_config\<lparr>attendance_insert := (\<lambda>tbl row. Raised (failure_text fl))\<rparr>"


definition cs_session :: session_row where
  "cs_session =
     \<lparr>sr_id = 0, sr_session_id = ''session_100'', sr_subject = ''Algebra'',
      sr_department = ''CS'', sr_year = ''2'', sr_division = ''A'', sr_date = None,
      sr_start_time = Some 100, sr_end_time = Some 1300, sr_ended_at = None,
      sr_status = ''active''\<rparr>"

definition alice :: student_row where
  "alice =
     \<lparr>st_id = 1, st_student_id = ''S1'', st_student_name = ''Alice'',
      st_department = ''CS'', st_year = ''2'', st_division = ''A'',
      st_embeddings = Some [[1, 0]]\<rparr>"

definition bob :: student_row where
  "bob =
     \<lparr>st_id = 2, st_student_id = ''S2'', st_student_name = ''Bob'',
      st_department = ''EE'', st_year = ''3'', st_division = ''B'',
      st_embeddings = Some [[0, 1]]\<rparr>"

definition room :: system where
  "room =
     \<lparr>sessions = [cs_session], attendance = [], students = [alice, bob],
      calls = [], timers = []\<rparr>"

definition face_of :: "vec \<Rightarrow> face" where
  "face_of v = \<lparr>box = (0, 0, 100, 100), embedding = Some v\<rparr>"

definition photo :: "vec list \<Rightarrow> mark_request" where
  "photo vs = \<lparr>mr_session_id = Some ''session_100'', mr_image = Some (Faces (map face_of vs))\<rparr>"

text \<open>The students as the caches read them, and a cache that has never been filled.\<close>

definition registry :: collection where
  "registry = \<lparr>col_docs = [alice, bob], col_reachable = True, col_finds = []\<rparr>"

definition cold_cache :: embedding_cache where
  "cold_cache = \<lparr>student_embeddings = None, ec_last_update = 0\<rparr>"

text \<open>A request to create a session for the class of the room.\<close>

definition class_request :: "jnum option \<Rightarrow> create_request" where
  "class_request d =
     \<lparr>cr_date = Some ''2025-11-06'', cr_subject = Some ''Algebra'',
      cr_department = Some ''CS'', cr_year = Some ''2'', cr_division = Some ''A'',
      cr_duration_minutes = d\<rparr>"

text \<open>
  A school with no session yet; a lesson created at time 0 for 20 minutes and ended by hand
  after five minutes; and the room with its session already closed at time 400.
\<close>

definition school :: system where
  "school = \<lparr>sessions = [], attendance = [], students = [alice, bob], calls = [], timers = []\<rparr>"

definition lesson :: "(timestamp \<times> event) list" where
  "lesson = [(0, CreateSession (class_request (Some (JInt 20)))),
             (300, EndSession (Some ''session_0''))]"

definition closed_room :: "string \<Rightarrow> system" where
  "closed_room st = room\<lparr>sessions := [cs_session\<lparr>sr_status := st, sr_end_time := Some 400\<rparr>]\<rparr>"

text \<open>
  Two students with embeddings of norm one in four dimensions, and a probe of norm one at
  cosine distance 0.6 from the first and 0.8 from the second.
\<close>

definition carol :: student_row where
  "carol =
     \<lparr>st_id = 3, st_student_id = ''S3'', st_student_name = ''Carol'',
      st_department = ''CS'', st_year = ''2'', st_division = ''A'',
      st_embeddings = Some [[1, 0, 0, 0]]\<rparr>"

definition dave :: student_row where
  "dave =
     \<lparr>st_id = 4, st_student_id = ''S4'', st_student_name = ''Dave'',
      st_department = ''CS'', st_year = ''2'', st_division = ''A'',
      st_embeddings = Some [[0, 0, 0, 1]]\<rparr>"

definition probe :: vec where
  "probe = [2 / 5, 4 / 5, 2 / 5, 1 / 5]"

definition hall :: system where
  "hall = room\<lparr>students := [carol, dave]\<rparr>"

definition hall_registry :: collection where
  "hall_registry = \<lparr>col_docs = [carol, dave], col_reachable = True, col_finds = []\<rparr>"

text \<open>
  The registry when it cannot be reached; the attendance cache holding an entry for the
  class of the room, last refreshed at time 0, and the same cache before any use; and the
  cache of the demo endpoint holding one student, last refreshed at time 0.
\<close>

definition offline_registry :: collection where
  "offline_registry = registry\<lparr>col_reachable := False\<rparr>"

definition alice_entry :: scoped_student where
  "alice_entry =
     \<lparr>cs_embedding = [1, 0], cs_studentId = ''S1'', cs_studentName = ''Alice'',
      cs_department = ''CS'', cs_year = ''2'', cs_division = ''A''\<rparr>"

definition stale_cache :: attendance_cache where
  "stale_cache =
     \<lparr>cached_embeddings = [session_student_filter cs_session \<mapsto> [alice_entry]],
      last_update = [session_student_filter cs_session \<mapsto> 0]\<rparr>"

definition empty_cache :: attendance_cache where
  "empty_cache = \<lparr>cached_embeddings = Map.empty, last_update = Map.empty\<rparr>"

definition warm_cache :: embedding_cache where
  "warm_cache =
     \<lparr>student_embeddings =
        Some [\<lparr>cs_embedding = [1, 0], cs_studentId = ''S1'', cs_studentName = ''Alice''\<rparr>],
      ec_last_update = 0\<rparr>"

section \<open>Properties of \<open>/real-mark\<close>\<close>

lemmas scen = room_config_def room_def cs_session_def alice_def bob_def photo_def face_of_def
  cosine_distance_def dot_def mean_vec_def constrained_insert_def same_key_def

lemmas ops = select_session_def select_attendance_of_session_def
  select_attendance_of_student_def select_students_with_embeddings_def insert_attendance_def
  log_call_def mark_face_def already_present_of_def resolve_face_def Let_def

text \<open>
  C9. When the models are ready, the store is configured, the request carries a session id
  and an image, and detection finds no face in the image, \<open>/real-mark\<close> answers with the
  success response whose list of faces is empty, and the store is left exactly as it was:
  no table changes and no request is sent to it (no session lookup, no read or write of
  attendance), whatever the session id is.
\<close>

theorem real_mark_no_faces:
  assumes "models_ready cfg" and "supabase_configured cfg"
    and "mr_session_id req = Some sid" and "sid \<noteq> []"
    and "mr_image req = Some (Faces [])"
  shows "real_mark cfg now req s = (NoFacesDetected, s)"
  using assms by (simp add: real_mark_def)

theorem real_mark_no_faces_witness:
  "real_mark room_config 200 (photo []) room = (NoFacesDetected, room)"
  using real_mark_no_faces[of room_config "photo []" "''session_100''" 200 room]
  by (simp add: room_config_def photo_def)

subsection \<open>Repeated requests for one identity\<close>

lemma find_filter_hd:
  "List.find P xs = Some x \<Longrightarrow> \<exists>ys. filter P xs = x # ys"
  by (induction xs) (auto split: if_splits)

lemma dom_already_present_of_aux:
  "dom (foldl (\<lambda>m record. m(ar_student_enrollment record \<mapsto>
                           (ar_student_name record, ar_marked_at record))) m0 marked)
     = dom m0 \<union> ar_student_enrollment ` set marked"
  by (induction marked arbitrary: m0) auto

lemma dom_already_present_of:
  "dom (already_present_of marked) = ar_student_enrollment ` set marked"
  by (simp add: already_present_of_def dom_already_present_of_aux)

lemma mark_face_known:
  assumes "resolve_face cfg studs f = Some student"
    and "st_student_id student \<in> dom already"
  shows "\<exists>r. mark_face cfg now sd studs f (already, s, rs) = (already, s, rs @ [r])
             \<and> fr_status r = Duplicate"
  using assms
  by (auto simp: mark_face_def resolve_face_def Let_def split: option.splits prod.splits if_splits)

lemma mark_face_new:
  assumes "resolve_face cfg studs f = Some student"
    and "st_student_id student \<notin> dom already"
    and "list_all (\<lambda>r. \<not> (ar_session_id r = sr_id sd
                          \<and> ar_student_enrollment r = st_student_id student)) (attendance s)"
    and "accepts_new_rows cfg"
  shows "\<exists>r row. mark_face cfg now sd studs f (already, s, rs)
               = (already(st_student_id student \<mapsto> (st_student_name student, now)),
                  s\<lparr>calls := calls s @ [SelectAttendanceOfStudent (sr_id sd) (st_student_id student),
                                        InsertAttendance row],
                    attendance := attendance s @ [row]\<rparr>,
                  rs @ [r])
             \<and> fr_status r = MarkedPresent
             \<and> ar_session_id row = sr_id sd \<and> ar_student_enrollment row = st_student_id student
             \<and> ar_status row = ''present''"
proof -
  from assms(1) obtain emb best min_d where
    e: "embedding f = Some emb" and
    b: "best_student cfg emb studs (None, PosInf) = (best, min_d)" and
    t: "flt min_d (Num (THRESHOLD cfg))" and bs: "best = Some student"
    by (auto simp: resolve_face_def split: option.splits prod.splits if_splits)
  have nofinal: "filter (\<lambda>r. ar_session_id r = sr_id sd
                   \<and> ar_student_enrollment r = st_student_id student) (attendance s) = []"
    using assms(3) by (induction "attendance s") (auto simp: list_all_iff filter_empty_conv)
  define row where "row = \<lparr>ar_session_id = sr_id sd, ar_student_id = st_id student,
        ar_student_enrollment = st_student_id student, ar_student_name = st_student_name student,
        ar_status = ''present'',
        ar_confidence = (1 - (case min_d of Num d \<Rightarrow> d | PosInf \<Rightarrow> 0)) * 100,
        ar_marked_at = now\<rparr>"
  have "list_all (\<lambda>r. \<not> same_key r row) (attendance s)"
    using assms(3) by (simp add: same_key_def row_def list_all_iff)
  then have ins: "attendance_insert cfg (attendance s) row = Inserted"
    using assms(4) by (simp add: accepts_new_rows_def)
  have ins': "attendance_insert cfg (attendance s) row = Inserted \<longleftrightarrow> True"
    using ins by simp
  have eq: "mark_face cfg now sd studs f (already, s, rs)
      = (already(st_student_id student \<mapsto> (st_student_name student, now)),
         s\<lparr>calls := calls s @ [SelectAttendanceOfStudent (sr_id sd) (st_student_id student),
                               InsertAttendance row],
           attendance := attendance s @ [row]\<rparr>,
         rs @ [\<lparr>fr_match = Some (st_student_id student, st_student_name student),
                 fr_distance = distance_of min_d, fr_box = box f,
                 fr_status = MarkedPresent, fr_already_marked = Some False\<rparr>])"
    using e b t bs nofinal ins assms(2) unfolding row_def
    by (simp add: mark_face_def Let_def select_attendance_of_student_def insert_attendance_def
        log_call_def)
  have "ar_session_id row = sr_id sd \<and> ar_student_enrollment row = st_student_id student
        \<and> ar_status row = ''present''"
    by (simp add: row_def)
  with eq show ?thesis by auto
qed


lemma mark_faces_append:
  "mark_faces cfg now sd studs (xs @ ys) st
     = mark_faces cfg now sd studs ys (mark_faces cfg now sd studs xs st)"
  by (induction xs arbitrary: st) simp_all

lemma mark_faces_known:
  assumes "list_all (\<lambda>f. map_option st_student_id (resolve_face cfg studs f) = Some ident) fs"
    and "ident \<in> dom already"
  shows "\<exists>rs'. mark_faces cfg now sd studs fs (already, s, rs) = (already, s, rs @ rs')
              \<and> map fr_status rs' = replicate (length fs) Duplicate"
  using assms
proof (induction fs arbitrary: rs)
  case Nil
  then show ?case by simp
next
  case (Cons f fs)
  from Cons.prems(1) obtain student where
    st: "resolve_face cfg studs f = Some student" "st_student_id student = ident"
    by auto
  with Cons.prems(2) obtain r where
    r: "mark_face cfg now sd studs f (already, s, rs) = (already, s, rs @ [r])"
       "fr_status r = Duplicate"
    using mark_face_known[of cfg studs f student already now sd s rs] by auto
  from Cons.prems have "list_all (\<lambda>f. map_option st_student_id (resolve_face cfg studs f) = Some ident) fs"
    by simp
  from Cons.IH[OF this Cons.prems(2), of "rs @ [r]"] obtain rs' where
    rs': "mark_faces cfg now sd studs fs (already, s, rs @ [r]) = (already, s, (rs @ [r]) @ rs')"
         "map fr_status rs' = replicate (length fs) Duplicate"
    by blast
  show ?case
    by (rule exI[of _ "r # rs'"]) (simp add: r rs')
qed

lemma mark_faces_new:
  assumes "list_all (\<lambda>f. map_option st_student_id (resolve_face cfg studs f) = Some ident) (f # fs)"
    and "ident \<notin> dom already"
    and "list_all (\<lambda>r. \<not> (ar_session_id r = sr_id sd \<and> ar_student_enrollment r = ident))
           (attendance s)"
    and "accepts_new_rows cfg"
  shows "\<exists>rs' row already'.
           mark_faces cfg now sd studs (f # fs) (already, s, rs)
             = (already',
                s\<lparr>calls := calls s @ [SelectAttendanceOfStudent (sr_id sd) ident,
                                      InsertAttendance row],
                  attendance := attendance s @ [row]\<rparr>,
                rs @ rs')
           \<and> map fr_status rs' = MarkedPresent # replicate (length fs) Duplicate
           \<and> ar_session_id row = sr_id sd \<and> ar_student_enrollment row = ident
           \<and> ar_status row = ''present''"
proof -
  from assms(1) obtain student where
    st: "resolve_face cfg studs f = Some student" "st_student_id student = ident"
    by auto
  from mark_face_new[OF st(1), of already sd s now rs] assms(2,3,4) st(2)
  obtain r row where
    step: "mark_face cfg now sd studs f (already, s, rs)
             = (already(ident \<mapsto> (st_student_name student, now)),
                s\<lparr>calls := calls s @ [SelectAttendanceOfStudent (sr_id sd) ident,
                                      InsertAttendance row],
                  attendance := attendance s @ [row]\<rparr>,
                rs @ [r])"
      and r: "fr_status r = MarkedPresent"
      and row: "ar_session_id row = sr_id sd" "ar_student_enrollment row = ident"
               "ar_status row = ''present''"
    by auto
  have rest: "list_all (\<lambda>f. map_option st_student_id (resolve_face cfg studs f) = Some ident) fs"
    using assms(1) by simp
  have "ident \<in> dom (already(ident \<mapsto> (st_student_name student, now)))" by simp
  from mark_faces_known[OF rest this, of now sd _ "rs @ [r]"] obtain rs' where
    rs': "mark_faces cfg now sd studs fs
            (already(ident \<mapsto> (st_student_name student, now)),
             s\<lparr>calls := calls s @ [SelectAttendanceOfStudent (sr_id sd) ident,
                                   InsertAttendance row],
               attendance := attendance s @ [row]\<rparr>, rs @ [r])
          = (already(ident \<mapsto> (st_student_name student, now)),
             s\<lparr>calls := calls s @ [SelectAttendanceOfStudent (sr_id sd) ident,
                                   InsertAttendance row],
               attendance := attendance s @ [row]\<rparr>, (rs @ [r]) @ rs')"
      "map fr_status rs' = replicate (length fs) Duplicate"
    by blast
  show ?thesis
    apply (rule exI[of _ "r # rs'"])
    apply (rule exI[of _ row])
    apply (rule exI[of _ "already(ident \<mapsto> (st_student_name student, now))"])
    apply (simp add: step rs' r row)
    done
qed


lemma resolves_toD:
  assumes "resolves_to cfg s sid ident req"
  shows "\<exists>f fs. mr_session_id req = Some sid \<and> mr_image req = Some (Faces (f # fs))
           \<and> list_all (\<lambda>f. map_option st_student_id
                 (resolve_face cfg (filter (\<lambda>r. st_embeddings r \<noteq> None) (students s)) f)
               = Some ident) (f # fs)"
proof -
  from assms obtain fs0 where
    a: "mr_session_id req = Some sid" "mr_image req = Some (Faces fs0)" "fs0 \<noteq> []"
       "list_all (\<lambda>f. map_option st_student_id
                 (resolve_face cfg (filter (\<lambda>r. st_embeddings r \<noteq> None) (students s)) f)
               = Some ident) fs0"
    unfolding resolves_to_def by (auto split: option.splits image_outcome.splits)
  then show ?thesis by (cases fs0) auto
qed

lemma real_mark_first:
  assumes cfg: "models_ready cfg" "supabase_configured cfg" "accepts_new_rows cfg"
    and sess: "List.find (\<lambda>r. sr_session_id r = sid) (sessions s) = Some sd"
              "sr_status sd = ''active''" "sid \<noteq> []"
    and fresh: "list_all (\<lambda>r. \<not> (ar_session_id r = sr_id sd \<and> ar_student_enrollment r = ident))
                  (attendance s)"
    and req: "resolves_to cfg s sid ident req"
  shows "\<exists>rs row extra.
           real_mark cfg now req s
             = (Marked rs,
                s\<lparr>calls := calls s @ extra @ [InsertAttendance row],
                  attendance := attendance s @ [row]\<rparr>)
           \<and> insert_calls_for ident extra = 0
           \<and> map fr_status rs = MarkedPresent # replicate (length rs - 1) Duplicate
           \<and> ar_session_id row = sr_id sd \<and> ar_student_enrollment row = ident
           \<and> ar_status row = ''present''"
proof -
  from resolves_toD[OF req] obtain f fs where
    img: "mr_session_id req = Some sid" "mr_image req = Some (Faces (f # fs))" and
    all: "list_all (\<lambda>f. map_option st_student_id
                 (resolve_face cfg (filter (\<lambda>r. st_embeddings r \<noteq> None) (students s)) f)
               = Some ident) (f # fs)"
    by blast
  from find_filter_hd[OF sess(1)] obtain others where
    sel: "filter (\<lambda>r. sr_session_id r = sid) (sessions s) = sd # others" by blast
  let ?studs = "filter (\<lambda>r. st_embeddings r \<noteq> None) (students s)"
  let ?s3 = "s\<lparr>calls := calls s @ [SelectSession sid, SelectAttendanceOfSession (sr_id sd),
                                    SelectStudentsWithEmbeddings]\<rparr>"
  let ?marked = "filter (\<lambda>r. ar_session_id r = sr_id sd) (attendance s)"
  have nodom: "ident \<notin> dom (already_present_of ?marked)"
    using fresh by (auto simp: dom_already_present_of list_all_iff)
  have fresh3: "list_all (\<lambda>r. \<not> (ar_session_id r = sr_id sd \<and> ar_student_enrollment r = ident))
                  (attendance ?s3)"
    using fresh by simp
  from mark_faces_new[OF all nodom fresh3 cfg(3), of now "[]"] obtain rs' row already' where
    loop: "mark_faces cfg now sd ?studs (f # fs) (already_present_of ?marked, ?s3, [])
             = (already',
                ?s3\<lparr>calls := calls ?s3 @ [SelectAttendanceOfStudent (sr_id sd) ident,
                                          InsertAttendance row],
                    attendance := attendance ?s3 @ [row]\<rparr>,
                [] @ rs')"
      and sts: "map fr_status rs' = MarkedPresent # replicate (length fs) Duplicate"
      and row: "ar_session_id row = sr_id sd" "ar_student_enrollment row = ident"
               "ar_status row = ''present''"
    by (elim exE conjE)
  have eq: "real_mark cfg now req s
      = (Marked rs',
         s\<lparr>calls := calls s @ [SelectSession sid, SelectAttendanceOfSession (sr_id sd),
                 SelectStudentsWithEmbeddings, SelectAttendanceOfStudent (sr_id sd) ident]
                 @ [InsertAttendance row],
           attendance := attendance s @ [row]\<rparr>)"
    using cfg(1,2) img sess(2,3) sel loop
    by (simp add: real_mark_def select_session_def select_attendance_of_session_def
        select_students_with_embeddings_def log_call_def del: mark_faces.simps)
  have "length (map fr_status rs') = length (MarkedPresent # replicate (length fs) Duplicate)"
    by (simp only: sts)
  then have len: "length rs' = Suc (length fs)" by simp
  show ?thesis
    apply (rule exI[of _ rs'])
    apply (rule exI[of _ row])
    apply (rule exI[of _ "[SelectSession sid, SelectAttendanceOfSession (sr_id sd),
                 SelectStudentsWithEmbeddings, SelectAttendanceOfStudent (sr_id sd) ident]"])
    using eq sts row len apply simp
    done
qed

lemma real_mark_later:
  assumes cfg: "models_ready cfg" "supabase_configured cfg"
    and sess: "List.find (\<lambda>r. sr_session_id r = sid) (sessions s) = Some sd"
              "sr_status sd = ''active''" "sid \<noteq> []"
    and known: "\<not> list_all (\<lambda>r. \<not> (ar_session_id r = sr_id sd \<and> ar_student_enrollment r = ident))
                  (attendance s)"
    and req: "resolves_to cfg s sid ident req"
  shows "\<exists>rs extra.
           real_mark cfg now req s = (Marked rs, s\<lparr>calls := calls s @ extra\<rparr>)
           \<and> insert_calls_for ident extra = 0
           \<and> map fr_status rs = Duplicate # replicate (length rs - 1) Duplicate"
proof -
  from resolves_toD[OF req] obtain f fs where
    img: "mr_session_id req = Some sid" "mr_image req = Some (Faces (f # fs))" and
    all: "list_all (\<lambda>f. map_option st_student_id
                 (resolve_face cfg (filter (\<lambda>r. st_embeddings r \<noteq> None) (students s)) f)
               = Some ident) (f # fs)"
    by blast
  from find_filter_hd[OF sess(1)] obtain others where
    sel: "filter (\<lambda>r. sr_session_id r = sid) (sessions s) = sd # others" by blast
  let ?studs = "filter (\<lambda>r. st_embeddings r \<noteq> None) (students s)"
  let ?s3 = "s\<lparr>calls := calls s @ [SelectSession sid, SelectAttendanceOfSession (sr_id sd),
                                    SelectStudentsWithEmbeddings]\<rparr>"
  let ?marked = "filter (\<lambda>r. ar_session_id r = sr_id sd) (attendance s)"
  have indom: "ident \<in> dom (already_present_of ?marked)"
    using known by (auto simp: dom_already_present_of list_all_iff image_iff)
  from mark_faces_known[OF all indom, of now sd ?s3 "[]"] obtain rs' where
    loop: "mark_faces cfg now sd ?studs (f # fs) (already_present_of ?marked, ?s3, [])
             = (already_present_of ?marked, ?s3, [] @ rs')"
      and sts: "map fr_status rs' = replicate (length (f # fs)) Duplicate"
    by (elim exE conjE)
  have eq: "real_mark cfg now req s
      = (Marked rs',
         s\<lparr>calls := calls s @ [SelectSession sid, SelectAttendanceOfSession (sr_id sd),
                 SelectStudentsWithEmbeddings]\<rparr>)"
    using cfg(1,2) img sess(2,3) sel loop
    by (simp add: real_mark_def select_session_def select_attendance_of_session_def
        select_students_with_embeddings_def log_call_def del: mark_faces.simps)
  have "length (map fr_status rs') = length (replicate (length (f # fs)) Duplicate)"
    by (simp only: sts)
  then have len: "length rs' = Suc (length fs)" by simp
  show ?thesis
    apply (rule exI[of _ rs'])
    apply (rule exI[of _ "[SelectSession sid, SelectAttendanceOfSession (sr_id sd),
                 SelectStudentsWithEmbeddings]"])
    using eq sts len apply simp
    done
qed


lemma insert_calls_for_append:
  "insert_calls_for ident (xs @ ys) = insert_calls_for ident xs + insert_calls_for ident ys"
  by (induction ident xs rule: insert_calls_for.induct) simp_all

lemma resolves_to_students:
  assumes "students s' = students s"
  shows "resolves_to cfg s' sid ident req = resolves_to cfg s sid ident req"
  by (simp only: resolves_to_def assms)

lemma mark_calls_later:
  assumes cfg: "models_ready cfg" "supabase_configured cfg"
    and sess: "List.find (\<lambda>r. sr_session_id r = sid) (sessions s) = Some sd"
              "sr_status sd = ''active''" "sid \<noteq> []"
    and known: "\<not> list_all (\<lambda>r. \<not> (ar_session_id r = sr_id sd \<and> ar_student_enrollment r = ident))
                  (attendance s)"
    and reqs: "list_all (\<lambda>tr. resolves_to cfg s sid ident (snd tr)) reqs"
  shows "\<exists>resps extra.
           mark_calls cfg reqs s = (resps, s\<lparr>calls := calls s @ extra\<rparr>)
           \<and> insert_calls_for ident extra = 0
           \<and> length resps = length reqs
           \<and> list_all (\<lambda>resp. statuses_of resp
                          = Duplicate # replicate (length (statuses_of resp) - 1) Duplicate) resps"
  using sess(1) known reqs
proof (induction reqs arbitrary: s)
  case Nil
  show ?case by (rule exI[of _ "[]"], rule exI[of _ "[]"]) simp
next
  case (Cons tr reqs)
  obtain now req where tr: "tr = (now, req)" by (cases tr)
  from Cons.prems(3) tr have r1: "resolves_to cfg s sid ident req" by simp
  from real_mark_later[OF cfg Cons.prems(1) sess(2,3) Cons.prems(2) r1, of now]
  obtain rs extra where
    one: "real_mark cfg now req s = (Marked rs, s\<lparr>calls := calls s @ extra\<rparr>)"
    and ex0: "insert_calls_for ident extra = 0"
    and sts: "map fr_status rs = Duplicate # replicate (length rs - 1) Duplicate"
    by (elim exE conjE)
  let ?s1 = "s\<lparr>calls := calls s @ extra\<rparr>"
  have p1: "List.find (\<lambda>r. sr_session_id r = sid) (sessions ?s1) = Some sd"
    using Cons.prems(1) by simp
  have p2: "\<not> list_all (\<lambda>r. \<not> (ar_session_id r = sr_id sd \<and> ar_student_enrollment r = ident))
                  (attendance ?s1)"
    using Cons.prems(2) by simp
  have p3: "list_all (\<lambda>tr. resolves_to cfg ?s1 sid ident (snd tr)) reqs"
    using Cons.prems(3) by (simp add: resolves_to_students[of ?s1 s])
  from Cons.IH[OF p1 p2 p3] obtain resps extra' where
    rest: "mark_calls cfg reqs ?s1 = (resps, ?s1\<lparr>calls := calls ?s1 @ extra'\<rparr>)"
    and ex1: "insert_calls_for ident extra' = 0"
    and len: "length resps = length reqs"
    and dup: "list_all (\<lambda>resp. statuses_of resp
                          = Duplicate # replicate (length (statuses_of resp) - 1) Duplicate) resps"
    by (elim exE conjE)
  show ?case
    apply (rule exI[of _ "Marked rs # resps"])
    apply (rule exI[of _ "extra @ extra'"])
    using one rest ex0 ex1 len dup sts
    apply (simp add: tr insert_calls_for_append)
    done
qed

text \<open>
  C1. Take a session whose row is found under its session id and is active, an identity
  with no attendance record for that session yet, a store that accepts rows whose
  (session, identity) pair is new, and one or more \<open>/real-mark\<close> requests, handled one
  after the other, each of which resolves to that identity. Then the first request marks
  the identity present (further faces of the same request are duplicates), every later
  request reports duplicates only, the attendance table has grown by exactly one row, that
  row is the only record with status \<open>present\<close> for the pair, and exactly one insert
  for the identity was sent to the store.
\<close>

theorem repeated_marks_one_record:
  assumes "models_ready cfg" and "supabase_configured cfg" and "accepts_new_rows cfg"
    and "List.find (\<lambda>r. sr_session_id r = sid) (sessions s) = Some sd"
    and "sr_status sd = ''active''" and "sid \<noteq> []"
    and "list_all (\<lambda>r. \<not> (ar_session_id r = sr_id sd \<and> ar_student_enrollment r = ident))
           (attendance s)"
    and "reqs \<noteq> []"
    and "list_all (\<lambda>tr. resolves_to cfg s sid ident (snd tr)) reqs"
  shows "\<exists>first later row s'.
           mark_calls cfg reqs s = (first # later, s')
           \<and> length (first # later) = length reqs
           \<and> statuses_of first = MarkedPresent # replicate (length (statuses_of first) - 1) Duplicate
           \<and> list_all (\<lambda>resp. statuses_of resp
                          = Duplicate # replicate (length (statuses_of resp) - 1) Duplicate) later
           \<and> attendance s' = attendance s @ [row]
           \<and> present_records (sr_id sd) ident s' = [row]
           \<and> insert_calls_for ident (calls s') = insert_calls_for ident (calls s) + 1"
proof -
  from assms(8) obtain now req rest where reqs: "reqs = (now, req) # rest"
    by (cases reqs) auto
  from assms(9) reqs have r1: "resolves_to cfg s sid ident req" by simp
  from real_mark_first[OF assms(1,2,3,4,5,6,7) r1, of now]
  obtain rs row extra where
    one: "real_mark cfg now req s
            = (Marked rs, s\<lparr>calls := calls s @ extra @ [InsertAttendance row],
                            attendance := attendance s @ [row]\<rparr>)"
    and ex0: "insert_calls_for ident extra = 0"
    and sts: "map fr_status rs = MarkedPresent # replicate (length rs - 1) Duplicate"
    and row: "ar_session_id row = sr_id sd" "ar_student_enrollment row = ident"
             "ar_status row = ''present''"
    by (elim exE conjE)
  let ?s1 = "s\<lparr>calls := calls s @ extra @ [InsertAttendance row],
               attendance := attendance s @ [row]\<rparr>"
  have p1: "List.find (\<lambda>r. sr_session_id r = sid) (sessions ?s1) = Some sd"
    using assms(4) by simp
  have p2: "\<not> list_all (\<lambda>r. \<not> (ar_session_id r = sr_id sd \<and> ar_student_enrollment r = ident))
                  (attendance ?s1)"
    using row by simp
  have p3: "list_all (\<lambda>tr. resolves_to cfg ?s1 sid ident (snd tr)) rest"
    using assms(9) reqs by (simp add: resolves_to_students[of ?s1 s])
  from mark_calls_later[OF assms(1,2) p1 assms(5,6) p2 p3] obtain resps extra' where
    rest: "mark_calls cfg rest ?s1 = (resps, ?s1\<lparr>calls := calls ?s1 @ extra'\<rparr>)"
    and ex1: "insert_calls_for ident extra' = 0"
    and len: "length resps = length rest"
    and dup: "list_all (\<lambda>resp. statuses_of resp
                          = Duplicate # replicate (length (statuses_of resp) - 1) Duplicate) resps"
    by (elim exE conjE)
  have none: "filter (\<lambda>r. ar_session_id r = sr_id sd \<and> ar_student_enrollment r = ident
                 \<and> ar_status r = ''present'') (attendance s) = []"
    using assms(7) by (auto simp: filter_empty_conv list_all_iff)
  show ?thesis
    apply (rule exI[of _ "Marked rs"])
    apply (rule exI[of _ resps])
    apply (rule exI[of _ row])
    apply (rule exI[of _ "?s1\<lparr>calls := calls ?s1 @ extra'\<rparr>"])
    using one rest ex0 ex1 len dup sts row none
    apply (simp add: reqs insert_calls_for_append present_records_def)
    done
qed


theorem repeated_marks_one_record_witness:
  "\<exists>first later row s'.
     mark_calls room_config [(200, photo [[1, 0]]), (210, photo [[1, 0], [1, 0]])] room
       = (first # later, s')
     \<and> length (first # later) = length [(200::real, photo [[1, 0]]), (210, photo [[1, 0], [1, 0]])]
     \<and> statuses_of first = MarkedPresent # replicate (length (statuses_of first) - 1) Duplicate
     \<and> list_all (\<lambda>resp. statuses_of resp
                          = Duplicate # replicate (length (statuses_of resp) - 1) Duplicate) later
     \<and> attendance s' = attendance room @ [row]
     \<and> present_records (sr_id cs_session) ''S1'' s' = [row]
     \<and> insert_calls_for ''S1'' (calls s') = insert_calls_for ''S1'' (calls room) + 1"
proof -
  have h3: "accepts_new_rows room_config"
    by (simp add: accepts_new_rows_def room_config_def constrained_insert_def)
  have h4: "List.find (\<lambda>r. sr_session_id r = ''session_100'') (sessions room) = Some cs_session"
    by (simp add: room_def cs_session_def)
  have h7: "list_all (\<lambda>r. \<not> (ar_session_id r = sr_id cs_session \<and> ar_student_enrollment r = ''S1''))
           (attendance room)"
    by (simp add: room_def)
  have h9: "list_all (\<lambda>tr. resolves_to room_config room ''session_100'' ''S1'' (snd tr))
              [(200, photo [[1, 0]]), (210, photo [[1, 0], [1, 0]])]"
    by (simp add: resolves_to_def resolve_face_def scen Let_def)
  show ?thesis
    by (rule repeated_marks_one_record[OF _ _ h3 h4 _ _ h7 _ h9])
       (simp_all add: room_config_def cs_session_def)
qed

subsection \<open>Several faces in one request\<close>

lemma mark_face_appends:
  "\<exists>r. snd (snd (mark_face cfg now sd studs f (already, s, rs))) = rs @ [r]"
  by (auto simp: mark_face_def Let_def select_attendance_of_student_def insert_attendance_def
      split: option.splits prod.splits if_splits insert_reply.splits)

lemma mark_face_marked_dom:
  assumes "mark_face cfg now sd studs f (already, s, rs) = (already1, s1, rs @ [r])"
    and "fr_status r = MarkedPresent" and "fr_match r = Some (ident, name)"
  shows "ident \<in> dom already1"
  using assms
  by (auto simp: mark_face_def Let_def select_attendance_of_student_def insert_attendance_def
      split: option.splits prod.splits if_splits insert_reply.splits)

lemma mark_face_keeps_known:
  assumes "ident \<in> dom already"
    and "mark_face cfg now sd studs f (already, s, rs) = (already', s', rs')"
  shows "ident \<in> dom already'
         \<and> insert_calls_for ident (calls s') = insert_calls_for ident (calls s)
         \<and> (\<exists>r. rs' = rs @ [r]
                \<and> (map_option st_student_id (resolve_face cfg studs f) = Some ident
                     \<longrightarrow> fr_status r = Duplicate))"
  using assms
  by (auto simp: mark_face_def resolve_face_def Let_def select_attendance_of_student_def
      insert_attendance_def log_call_def insert_calls_for_append
      split: option.splits prod.splits if_splits insert_reply.splits)


lemma mark_faces_keeps_known:
  assumes "ident \<in> dom already"
    and "mark_faces cfg now sd studs fs (already, s, rs) = (already', s', rs')"
  shows "ident \<in> dom already'
         \<and> insert_calls_for ident (calls s') = insert_calls_for ident (calls s)
         \<and> length rs' = length rs + length fs
         \<and> take (length rs) rs' = rs
         \<and> (\<forall>i<length fs.
               map_option st_student_id (resolve_face cfg studs (fs ! i)) = Some ident
                 \<longrightarrow> fr_status (rs' ! (length rs + i)) = Duplicate)"
  using assms
proof (induction fs arbitrary: already s rs)
  case Nil
  then show ?case by simp
next
  case (Cons f fs)
  obtain a1 s1 rs1 where one: "mark_face cfg now sd studs f (already, s, rs) = (a1, s1, rs1)"
    by (cases "mark_face cfg now sd studs f (already, s, rs)") auto
  from mark_face_keeps_known[OF Cons.prems(1) one] obtain r where
    k1: "ident \<in> dom a1"
    and c1: "insert_calls_for ident (calls s1) = insert_calls_for ident (calls s)"
    and r: "rs1 = rs @ [r]"
    and d: "map_option st_student_id (resolve_face cfg studs f) = Some ident
              \<longrightarrow> fr_status r = Duplicate"
    by (elim exE conjE)
  from Cons.prems(2) one have rest: "mark_faces cfg now sd studs fs (a1, s1, rs1) = (already', s', rs')"
    by simp
  from Cons.IH[OF k1 rest] have
    k2: "ident \<in> dom already'"
    and c2: "insert_calls_for ident (calls s') = insert_calls_for ident (calls s1)"
    and l2: "length rs' = length rs1 + length fs"
    and t2: "take (length rs1) rs' = rs1"
    and d2: "\<forall>i<length fs.
               map_option st_student_id (resolve_face cfg studs (fs ! i)) = Some ident
                 \<longrightarrow> fr_status (rs' ! (length rs1 + i)) = Duplicate"
    by simp_all
  have t: "take (length rs) rs' = rs"
  proof -
    have "take (length rs) rs' = take (length rs) (take (length rs1) rs')"
      using r by (simp add: min_def)
    also have "\<dots> = rs" using t2 r by simp
    finally show ?thesis .
  qed
  have at: "rs' ! length rs = r"
  proof -
    have "rs' ! length rs = take (length rs1) rs' ! length rs"
      using r by simp
    also have "\<dots> = r" using t2 r by simp
    finally show ?thesis .
  qed
  have dup: "\<forall>i<length (f # fs).
               map_option st_student_id (resolve_face cfg studs ((f # fs) ! i)) = Some ident
                 \<longrightarrow> fr_status (rs' ! (length rs + i)) = Duplicate"
  proof (intro allI impI)
    fix i assume i: "i < length (f # fs)"
      and res: "map_option st_student_id (resolve_face cfg studs ((f # fs) ! i)) = Some ident"
    show "fr_status (rs' ! (length rs + i)) = Duplicate"
    proof (cases i)
      case 0
      with res d at show ?thesis by simp
    next
      case (Suc j)
      with i res d2 r show ?thesis by simp
    qed
  qed
  from k2 c1 c2 l2 r t dup show ?case by simp
qed

text \<open>
  C10. In the loop over the faces of one request: when the step for a face ends with the
  result \<open>marked_present\<close> for an identity, that identity is in the in-request
  dictionary of students already present; and over all later faces of the request, every
  face that resolves to the identity gets the result \<open>duplicate\<close>, and no further insert
  for the identity is sent to the store.
\<close>

theorem later_faces_are_duplicates:
  assumes "mark_face cfg now sd studs f (already, s, rs) = (already1, s1, rs @ [r])"
    and "fr_status r = MarkedPresent" and "fr_match r = Some (ident, name)"
    and "mark_faces cfg now sd studs later (already1, s1, rs @ [r]) = (already2, s2, rs2)"
  shows "ident \<in> dom already1
         \<and> mark_faces cfg now sd studs (f # later) (already, s, rs) = (already2, s2, rs2)
         \<and> insert_calls_for ident (calls s2) = insert_calls_for ident (calls s1)
         \<and> length rs2 = length rs + 1 + length later
         \<and> (\<forall>i<length later.
               map_option st_student_id (resolve_face cfg studs (later ! i)) = Some ident
                 \<longrightarrow> fr_status (rs2 ! (length rs + 1 + i)) = Duplicate)"
proof -
  have k: "ident \<in> dom already1"
    using mark_face_marked_dom[OF assms(1,2,3)] .
  from mark_faces_keeps_known[OF k assms(4)] assms(1,4) show ?thesis
    using k by simp
qed

theorem later_faces_are_duplicates_witness:
  "let st1 = mark_face room_config 200 cs_session [alice, bob] (face_of [1, 0])
               (Map.empty, room, []);
       st2 = mark_faces room_config 200 cs_session [alice, bob]
               [face_of [0, 1], face_of [1, 0]] st1
   in map fr_status (snd (snd st1)) = [MarkedPresent]
      \<and> ''S1'' \<in> dom (fst st1)
      \<and> insert_calls_for ''S1'' (calls (fst (snd st2)))
          = insert_calls_for ''S1'' (calls (fst (snd st1)))
      \<and> fr_status (snd (snd st2) ! 2) = Duplicate"
proof -
  define st1 where "st1 = mark_face room_config 200 cs_session [alice, bob] (face_of [1, 0])
               (Map.empty, room, [])"
  define st2 where "st2 = mark_faces room_config 200 cs_session [alice, bob]
               [face_of [0, 1], face_of [1, 0]] st1"
  define r where "r = \<lparr>fr_match = Some (''S1'', ''Alice''), fr_distance = Some 0,
      fr_box = (0, 0, 100, 100), fr_status = MarkedPresent, fr_already_marked = Some False\<rparr>"
  have st1: "snd (snd st1) = [] @ [r]"
    by (simp add: st1_def r_def scen ops)
  have eq1: "(fst st1, fst (snd st1), [] @ [r]) = st1"
    using st1 by (simp add: prod_eq_iff)
  have h1: "mark_face room_config 200 cs_session [alice, bob] (face_of [1, 0])
               (Map.empty, room, []) = (fst st1, fst (snd st1), [] @ [r])"
    unfolding eq1 by (simp only: st1_def)
  have h2: "fr_status r = MarkedPresent" and h3: "fr_match r = Some (''S1'', ''Alice'')"
    by (simp_all add: r_def)
  have h4: "mark_faces room_config 200 cs_session [alice, bob]
               [face_of [0, 1], face_of [1, 0]] (fst st1, fst (snd st1), [] @ [r])
             = (fst st2, fst (snd st2), snd (snd st2))"
    unfolding eq1 by (simp only: st2_def prod.collapse)
  have res: "map_option st_student_id
               (resolve_face room_config [alice, bob] ([face_of [0, 1], face_of [1, 0]] ! 1))
             = Some ''S1''"
    by (simp add: scen ops)
  note run = later_faces_are_duplicates[OF h1 h2 h3 h4]
  from run have known: "''S1'' \<in> dom (fst st1)"
    and same: "insert_calls_for ''S1'' (calls (fst (snd st2)))
                 = insert_calls_for ''S1'' (calls (fst (snd st1)))"
    by simp_all
  from run have later: "\<And>i. i < 2 \<Longrightarrow>
      map_option st_student_id
        (resolve_face room_config [alice, bob] ([face_of [0, 1], face_of [1, 0]] ! i)) = Some ''S1''
      \<Longrightarrow> fr_status (snd (snd st2) ! (1 + i)) = Duplicate"
    by simp
  from later[of 1] res have dup: "fr_status (snd (snd st2) ! 2) = Duplicate"
    by (simp add: numeral_2_eq_2)
  show ?thesis
    unfolding Let_def st1_def[symmetric] st2_def[symmetric]
    using known same dup st1 h2 by simp
qed

subsection \<open>Inserts the store refuses\<close>

lemma py_in_prefix: "py_in sub (sub @ xs)"
proof (cases "sub @ xs")
  case Nil
  then show ?thesis by simp
next
  case (Cons a list)
  have "take (length sub) (sub @ xs) = sub" by simp
  with Cons show ?thesis by simp
qed

lemma conflict_message_unique_violation: "conflict_message (unique_violation c)"
proof -
  have "py_lower (unique_violation c)
          = ''duplicate key'' @ ('' value violates unique constraint '' @ py_lower ([CHR 0x22] @ c @ [CHR 0x22]))"
    by (simp add: unique_violation_def py_lower_def lower_char_def)
  then have "py_in ''duplicate key'' (py_lower (unique_violation c))"
    by (simp only: py_in_prefix)
  then show ?thesis by (simp add: conflict_message_def)
qed

lemma mark_face_insert_fails:
  assumes "resolve_face cfg studs f = Some student"
    and "st_student_id student \<notin> dom already"
    and "list_all (\<lambda>r. \<not> (ar_session_id r = sr_id sd
                          \<and> ar_student_enrollment r = st_student_id student)) (attendance s)"
    and "\<forall>tbl row. attendance_insert cfg tbl row = reply" and "reply \<noteq> Inserted"
  shows "\<exists>r s'. mark_face cfg now sd studs f (already, s, rs) = (already, s', rs @ [r])
             \<and> attendance s' = attendance s \<and> sessions s' = sessions s
             \<and> students s' = students s
             \<and> fr_match r = Some (st_student_id student, st_student_name student)
             \<and> fr_status r = (case reply of
                                Raised msg \<Rightarrow> if conflict_message msg then Duplicate else FaceError
                              | other \<Rightarrow> FaceError)"
proof -
  from assms(1) obtain emb best min_d where
    e: "embedding f = Some emb" and
    b: "best_student cfg emb studs (None, PosInf) = (best, min_d)" and
    t: "flt min_d (Num (THRESHOLD cfg))" and bs: "best = Some student"
    by (auto simp: resolve_face_def split: option.splits prod.splits if_splits)
  have nofinal: "filter (\<lambda>r. ar_session_id r = sr_id sd
                   \<and> ar_student_enrollment r = st_student_id student) (attendance s) = []"
    using assms(3) by (auto simp: list_all_iff filter_empty_conv)
  from assms(4) have ins: "\<And>tbl row. attendance_insert cfg tbl row = reply" by simp
  show ?thesis
    using e b t bs nofinal assms(2,5)
    by (cases reply)
       (simp_all add: mark_face_def Let_def select_attendance_of_student_def
          insert_attendance_def log_call_def ins)
qed


text \<open>
  C2, as stated, fails in its second half: an insert failure that is not a uniqueness
  conflict, but whose text mentions a unique constraint, is reported as \<open>duplicate\<close>.
\<close>

theorem other_failure_reported_duplicate_counterexample:
  "statuses_of (fst (real_mark
      (failing_config (OtherFailure ''could not verify unique constraint: connection reset''))
      200 (photo [[1, 0]]) room)) = [Duplicate]"
  by (simp add: failing_config_def real_mark_def scen ops conflict_message_def py_lower_def
      lower_char_def)

text \<open>
  C2, amended. A request with one face that resolves to an identity not yet recorded for
  an active session, where the store does not accept the insert. The request is answered
  with the list of results, not with an error response, and the attendance table is
  unchanged. The face's result is \<open>duplicate\<close> when the insert raises the violation of a
  unique constraint, whatever the constraint's name, and whenever the text of the
  exception mentions \<open>duplicate key\<close> or \<open>unique constraint\<close> in any letter case. It is
  \<open>error\<close> when the insert raises with a text that mentions neither, and when the insert
  returns no data.
\<close>

theorem insert_failure_outcomes:
  assumes "models_ready cfg" and "supabase_configured cfg"
    and "List.find (\<lambda>r. sr_session_id r = sid) (sessions s) = Some sd"
    and "sr_status sd = ''active''" and "sid \<noteq> []"
    and "list_all (\<lambda>r. \<not> (ar_session_id r = sr_id sd \<and> ar_student_enrollment r = ident))
           (attendance s)"
    and "mr_session_id req = Some sid" and "mr_image req = Some (Faces [f])"
    and "map_option st_student_id
           (resolve_face cfg (filter (\<lambda>r. st_embeddings r \<noteq> None) (students s)) f) = Some ident"
    and "\<forall>tbl row. attendance_insert cfg tbl row = reply" and "reply \<noteq> Inserted"
  shows "\<exists>r s'. real_mark cfg now req s = (Marked [r], s')
           \<and> attendance s' = attendance s
           \<and> (reply = Raised (failure_text (UniqueViolation c)) \<longrightarrow> fr_status r = Duplicate)
           \<and> (\<forall>msg. reply = Raised msg
                  \<and> (py_in ''duplicate key'' (py_lower msg)
                      \<or> py_in ''unique constraint'' (py_lower msg))
                  \<longrightarrow> fr_status r = Duplicate)
           \<and> (\<forall>msg. reply = Raised msg
                  \<and> \<not> py_in ''duplicate key'' (py_lower msg)
                  \<and> \<not> py_in ''unique constraint'' (py_lower msg)
                  \<longrightarrow> fr_status r = FaceError)
           \<and> (reply = NoData \<longrightarrow> fr_status r = FaceError)"
proof -
  from find_filter_hd[OF assms(3)] obtain others where
    sel: "filter (\<lambda>r. sr_session_id r = sid) (sessions s) = sd # others" by blast
  let ?studs = "filter (\<lambda>r. st_embeddings r \<noteq> None) (students s)"
  let ?s3 = "s\<lparr>calls := calls s @ [SelectSession sid, SelectAttendanceOfSession (sr_id sd),
                                    SelectStudentsWithEmbeddings]\<rparr>"
  let ?marked = "filter (\<lambda>r. ar_session_id r = sr_id sd) (attendance s)"
  from assms(9) obtain student where
    st: "resolve_face cfg ?studs f = Some student" "st_student_id student = ident"
    by auto
  have nodom: "st_student_id student \<notin> dom (already_present_of ?marked)"
    using assms(6) st(2) by (auto simp: dom_already_present_of list_all_iff)
  have fresh3: "list_all (\<lambda>r. \<not> (ar_session_id r = sr_id sd
                    \<and> ar_student_enrollment r = st_student_id student)) (attendance ?s3)"
    using assms(6) st(2) by simp
  from mark_face_insert_fails[OF st(1) nodom fresh3 assms(10,11), of now "[]"]
  obtain r s' where
    one: "mark_face cfg now sd ?studs f (already_present_of ?marked, ?s3, [])
            = (already_present_of ?marked, s', [] @ [r])"
    and att: "attendance s' = attendance ?s3"
    and sts: "fr_status r = (case reply of
                               Raised msg \<Rightarrow> if conflict_message msg then Duplicate else FaceError
                             | other \<Rightarrow> FaceError)"
    by (elim exE conjE)
  have eq: "real_mark cfg now req s = (Marked [r], s')"
    using assms(1,2,4,5,7,8) sel one
    by (simp add: real_mark_def select_session_def select_attendance_of_session_def
        select_students_with_embeddings_def log_call_def)
  have a: "attendance s' = attendance s" using att by simp
  have b: "reply = Raised (failure_text (UniqueViolation c)) \<longrightarrow> fr_status r = Duplicate"
    using sts conflict_message_unique_violation[of c] by simp
  have d: "\<forall>msg. reply = Raised msg
                  \<and> (py_in ''duplicate key'' (py_lower msg)
                      \<or> py_in ''unique constraint'' (py_lower msg))
                  \<longrightarrow> fr_status r = Duplicate"
    using sts by (simp add: conflict_message_def)
  have e: "\<forall>msg. reply = Raised msg
                  \<and> \<not> py_in ''duplicate key'' (py_lower msg)
                  \<and> \<not> py_in ''unique constraint'' (py_lower msg)
                  \<longrightarrow> fr_status r = FaceError"
    using sts by (simp add: conflict_message_def)
  have g: "reply = NoData \<longrightarrow> fr_status r = FaceError"
    using sts by simp
  show ?thesis
    apply (rule exI[of _ r])
    apply (rule exI[of _ s'])
    apply (intro conjI)
         apply (rule eq, rule a, rule b, rule d, rule e, rule g)
    done
qed


theorem insert_failure_outcomes_witness:
  "(\<exists>r s'. real_mark
       (failing_config (UniqueViolation ''attendance_records_session_student_key''))
       200 (photo [[1, 0]]) room = (Marked [r], s')
       \<and> attendance s' = attendance room \<and> fr_status r = Duplicate)
   \<and> (\<exists>r s'. real_mark (failing_config (OtherFailure ''connection timed out''))
       200 (photo [[1, 0]]) room = (Marked [r], s')
       \<and> attendance s' = attendance room \<and> fr_status r = FaceError)"
proof -
  have h1: "\<And>fl. models_ready (failing_config fl)"
    and h2: "\<And>fl. supabase_configured (failing_config fl)"
    by (simp_all add: failing_config_def room_config_def)
  have h3: "List.find (\<lambda>r. sr_session_id r = ''session_100'') (sessions room) = Some cs_session"
    by (simp add: room_def cs_session_def)
  have h4: "sr_status cs_session = ''active''" and h5: "''session_100'' \<noteq> []"
    by (simp_all add: cs_session_def)
  have h6: "list_all (\<lambda>r. \<not> (ar_session_id r = sr_id cs_session \<and> ar_student_enrollment r = ''S1''))
           (attendance room)"
    by (simp add: room_def)
  have h7: "mr_session_id (photo [[1, 0]]) = Some ''session_100''"
    by (simp add: photo_def)
  have h8: "mr_image (photo [[1, 0]]) = Some (Faces [face_of [1, 0]])"
    by (simp add: photo_def)
  have h9: "\<And>fl. map_option st_student_id
           (resolve_face (failing_config fl)
              (filter (\<lambda>r. st_embeddings r \<noteq> None) (students room)) (face_of [1, 0])) = Some ''S1''"
    by (simp add: failing_config_def scen ops)
  have h10: "\<And>fl. \<forall>tbl row. attendance_insert (failing_config fl) tbl row
               = Raised (failure_text fl)"
    by (simp add: failing_config_def)
  have h11: "\<And>fl. Raised (failure_text fl) \<noteq> Inserted" by simp
  have quiet: "\<not> py_in ''duplicate key'' (py_lower ''connection timed out'')
               \<and> \<not> py_in ''unique constraint'' (py_lower ''connection timed out'')"
    by (simp add: py_lower_def lower_char_def)
  note conflict = insert_failure_outcomes[OF h1 h2 h3 h4 h5 h6 h7 h8 h9 h10 h11,
      where fl1="UniqueViolation ''attendance_records_session_student_key''"
        and c="''attendance_records_session_student_key''" and now=200]
  note other = insert_failure_outcomes[OF h1 h2 h3 h4 h5 h6 h7 h8 h9 h10 h11,
      where fl1="OtherFailure ''connection timed out''"
        and c="''attendance_records_session_student_key''" and now=200]
  from conflict have first: "\<exists>r s'. real_mark
       (failing_config (UniqueViolation ''attendance_records_session_student_key''))
       200 (photo [[1, 0]]) room = (Marked [r], s')
       \<and> attendance s' = attendance room \<and> fr_status r = Duplicate"
    by auto
  from other quiet have second: "\<exists>r s'. real_mark (failing_config (OtherFailure ''connection timed out''))
       200 (photo [[1, 0]]) room = (Marked [r], s')
       \<and> attendance s' = attendance room \<and> fr_status r = FaceError"
    by auto
  from first second show ?thesis ..
qed

section \<open>Properties of the matching functions and the caches\<close>

lemma nearest_from_num:
  fixes cs :: "'a cached_student_scheme list"
  shows "snd (nearest cfg q cs (b, Num m))
           = Num (Min (insert m ((\<lambda>c. cosine cfg q (cs_embedding c)) ` set cs)))
         \<and> ((fst (nearest cfg q cs (b, Num m)) = b
               \<and> Min (insert m ((\<lambda>c. cosine cfg q (cs_embedding c)) ` set cs)) = m)
             \<or> (\<exists>c\<in>set cs. fst (nearest cfg q cs (b, Num m)) = Some c
                   \<and> cosine cfg q (cs_embedding c)
                       = Min (insert m ((\<lambda>c. cosine cfg q (cs_embedding c)) ` set cs))))"
proof (induction cs arbitrary: b m)
  case Nil
  show ?case by simp
next
  case (Cons c cs)
  let ?d = "\<lambda>c. cosine cfg q (cs_embedding c)"
  have fin: "finite (?d ` set cs)" by simp
  show ?case
  proof (cases "?d c < m")
    case True
    have step: "nearest cfg q (c # cs) (b, Num m) = nearest cfg q cs (Some c, Num (?d c))"
      using True by (simp add: Let_def)
    have m1: "Min (insert m (?d ` set (c # cs))) = Min (insert (?d c) (?d ` set cs))"
    proof -
      have "Min (insert m (insert (?d c) (?d ` set cs))) = min m (Min (insert (?d c) (?d ` set cs)))"
        using fin by (simp only: Min_insert finite_insert insert_not_empty not_False_eq_True)
      also have "\<dots> = Min (insert (?d c) (?d ` set cs))"
      proof -
        define M where "M = Min (insert (?d c) (?d ` set cs))"
        have "M \<le> ?d c"
          unfolding M_def using fin by (intro Min_le) simp_all
        with True have "min m M = M" by (simp add: min_def)
        then show ?thesis by (simp only: M_def)
      qed
      finally show ?thesis by simp
    qed
    from Cons.IH[of "Some c" "?d c"] show ?thesis
      unfolding step m1 by auto
  next
    case False
    have step: "nearest cfg q (c # cs) (b, Num m) = nearest cfg q cs (b, Num m)"
      using False by (simp add: Let_def)
    have m1: "Min (insert m (?d ` set (c # cs))) = Min (insert m (?d ` set cs))"
    proof -
      have "insert m (?d ` set (c # cs)) = insert (?d c) (insert m (?d ` set cs))" by auto
      then have "Min (insert m (?d ` set (c # cs))) = min (?d c) (Min (insert m (?d ` set cs)))"
        using fin by (simp only: Min_insert finite_insert insert_not_empty not_False_eq_True)
      also have "\<dots> = Min (insert m (?d ` set cs))"
      proof -
        define M where "M = Min (insert m (?d ` set cs))"
        have "M \<le> m"
          unfolding M_def using fin by (intro Min_le) simp_all
        with False have "min (?d c) M = M" by (simp add: min_def)
        then show ?thesis by (simp only: M_def)
      qed
      finally show ?thesis .
    qed
    from Cons.IH[of b m] show ?thesis
      unfolding step m1 by auto
  qed
qed

lemma nearest_from_inf:
  fixes cs :: "'a cached_student_scheme list"
  assumes "cs \<noteq> []"
  shows "\<exists>c\<in>set cs. nearest cfg q cs (None, PosInf)
            = (Some c, Num (Min ((\<lambda>c. cosine cfg q (cs_embedding c)) ` set cs)))
          \<and> cosine cfg q (cs_embedding c) = Min ((\<lambda>c. cosine cfg q (cs_embedding c)) ` set cs)"
proof -
  let ?d = "\<lambda>c. cosine cfg q (cs_embedding c)"
  from assms obtain c rest where cs: "cs = c # rest" by (cases cs) auto
  have step: "nearest cfg q cs (None, PosInf) = nearest cfg q rest (Some c, Num (?d c))"
    by (simp add: cs Let_def)
  have set: "insert (?d c) (?d ` set rest) = ?d ` set cs" by (simp add: cs)
  from nearest_from_num[of cfg q rest "Some c" "?d c"] show ?thesis
    unfolding step set
    by (cases "nearest cfg q rest (Some c, Num (cosine cfg q (cs_embedding c)))")
       (auto simp: cs)
qed


lemma best_student_skip:
  "stored_of r = [] \<Longrightarrow> best_student cfg emb (r # rest) acc = best_student cfg emb rest acc"
  by (cases acc) (simp add: stored_of_def split: option.splits)

lemma best_student_take:
  "stored_of r \<noteq> [] \<Longrightarrow>
   best_student cfg emb (r # rest) (b, m)
     = (if flt (Num (student_distance cfg emb r)) m
        then best_student cfg emb rest (Some r, Num (student_distance cfg emb r))
        else best_student cfg emb rest (b, m))"
  by (simp add: stored_of_def student_distance_def Let_def split: option.splits)

lemma best_student_from_num:
  "snd (best_student cfg emb studs (b, Num m))
     = Num (Min (insert m (student_distance cfg emb ` set (usable studs))))
   \<and> ((fst (best_student cfg emb studs (b, Num m)) = b
         \<and> Min (insert m (student_distance cfg emb ` set (usable studs))) = m)
       \<or> (\<exists>r\<in>set (usable studs). fst (best_student cfg emb studs (b, Num m)) = Some r
             \<and> student_distance cfg emb r
                 = Min (insert m (student_distance cfg emb ` set (usable studs)))))"
proof (induction studs arbitrary: b m)
  case Nil
  show ?case by (simp add: usable_def)
next
  case (Cons r studs)
  let ?d = "student_distance cfg emb"
  have fin: "finite (?d ` set (usable studs))" by simp
  show ?case
  proof (cases "stored_of r = []")
    case True
    then have u: "usable (r # studs) = usable studs" by (simp add: usable_def)
    from Cons.IH[of b m] show ?thesis
      unfolding best_student_skip[OF True] u .
  next
    case False
    then have u: "usable (r # studs) = r # usable studs" by (simp add: usable_def)
    show ?thesis
    proof (cases "?d r < m")
      case True
      have step: "best_student cfg emb (r # studs) (b, Num m)
                    = best_student cfg emb studs (Some r, Num (?d r))"
        using True by (simp only: best_student_take[OF False] flt.simps if_True)
      have m1: "Min (insert m (?d ` set (usable (r # studs))))
                  = Min (insert (?d r) (?d ` set (usable studs)))"
      proof -
        define M where "M = Min (insert (?d r) (?d ` set (usable studs)))"
        have "M \<le> ?d r"
          unfolding M_def using fin by (intro Min_le) simp_all
        with True have "min m M = M" by (simp add: min_def)
        moreover have "Min (insert m (insert (?d r) (?d ` set (usable studs)))) = min m M"
          unfolding M_def using fin
          by (simp only: Min_insert finite_insert insert_not_empty not_False_eq_True)
        ultimately show ?thesis by (simp add: u M_def)
      qed
      from Cons.IH[of "Some r" "?d r"] show ?thesis
        unfolding step m1 by (auto simp: u)
    next
      case nless: False
      have step: "best_student cfg emb (r # studs) (b, Num m) = best_student cfg emb studs (b, Num m)"
        using nless by (simp only: best_student_take[OF False] flt.simps if_False)
      have m1: "Min (insert m (?d ` set (usable (r # studs))))
                  = Min (insert m (?d ` set (usable studs)))"
      proof -
        define M where "M = Min (insert m (?d ` set (usable studs)))"
        have "M \<le> m"
          unfolding M_def using fin by (intro Min_le) simp_all
        with nless have "min (?d r) M = M" by (simp add: min_def)
        moreover have "insert m (?d ` set (usable (r # studs)))
                         = insert (?d r) (insert m (?d ` set (usable studs)))"
          by (auto simp: u)
        moreover have "Min (insert (?d r) (insert m (?d ` set (usable studs)))) = min (?d r) M"
          unfolding M_def using fin
          by (simp only: Min_insert finite_insert insert_not_empty not_False_eq_True)
        ultimately show ?thesis by (simp only: M_def)
      qed
      from Cons.IH[of b m] show ?thesis
        unfolding step m1 by (auto simp: u)
    qed
  qed
qed

lemma best_student_from_inf:
  assumes "usable studs \<noteq> []"
  shows "\<exists>r\<in>set (usable studs).
           best_student cfg emb studs (None, PosInf)
             = (Some r, Num (Min (student_distance cfg emb ` set (usable studs))))
           \<and> student_distance cfg emb r = Min (student_distance cfg emb ` set (usable studs))"
  using assms
proof (induction studs)
  case Nil
  then show ?case by (simp add: usable_def)
next
  case (Cons r studs)
  let ?d = "student_distance cfg emb"
  show ?case
  proof (cases "stored_of r = []")
    case True
    then have u: "usable (r # studs) = usable studs" by (simp add: usable_def)
    from Cons.prems u have "usable studs \<noteq> []" by simp
    from Cons.IH[OF this] show ?thesis
      unfolding best_student_skip[OF True] u .
  next
    case False
    then have u: "usable (r # studs) = r # usable studs" by (simp add: usable_def)
    have step: "best_student cfg emb (r # studs) (None, PosInf)
                  = best_student cfg emb studs (Some r, Num (?d r))"
      by (simp only: best_student_take[OF False] flt.simps if_True)
    have set: "insert (?d r) (?d ` set (usable studs)) = ?d ` set (usable (r # studs))"
      by (simp add: u)
    from best_student_from_num[of cfg emb studs "Some r" "?d r"] show ?thesis
      unfolding step set
      by (cases "best_student cfg emb studs (Some r, Num (student_distance cfg emb r))")
         (auto simp: u)
  qed
qed

lemma probe_eval:
  "student_distance room_config probe carol = 6 / 10"
  "student_distance room_config probe dave = 8 / 10"
  by (simp_all add: student_distance_def stored_of_def carol_def dave_def probe_def
      room_config_def cosine_distance_def dot_def mean_vec_def)


lemma mark_face_scan:
  assumes "embedding f = Some emb"
    and "best_student cfg emb studs (None, PosInf) = (Some student, Num d)"
  shows "\<exists>r. snd (snd (mark_face cfg now sd studs f (already, s, rs))) = rs @ [r]
           \<and> fr_distance r = Some d
           \<and> (if d < THRESHOLD cfg
               then fr_match r = Some (st_student_id student, st_student_name student)
                    \<and> fr_status r \<noteq> NoMatch
               else fr_match r = None \<and> fr_status r = NoMatch)"
  using assms
  by (auto simp: mark_face_def Let_def select_attendance_of_student_def insert_attendance_def
      split: prod.splits if_splits insert_reply.splits)

text \<open>
  C5. Both scans accept a match only when the minimum cosine distance is strictly below the
  threshold, and both report the minimum whether or not a match is accepted.
  For \<open>find_best_match_optimized\<close> with a non-empty candidate list from the cache: the
  distance returned is the minimum of the distances from the query to the candidates; a
  candidate is returned exactly when that minimum is below the threshold, and it is then a
  candidate at the minimum; a minimum equal to the threshold gives no match.
  For the scan inside \<open>/real-mark\<close>, on a face with an embedding and at least one student
  that has stored embeddings: the entry appended for the face carries the minimum of the
  students' distances; it names a match exactly when that minimum is below \<open>THRESHOLD\<close>,
  and the match is then a student at the minimum; otherwise, and in particular when the
  minimum equals the threshold, the entry is \<open>no_match\<close> without a match.
\<close>

theorem find_best_match_strict_threshold:
  assumes "get_embeddings cfg now st = (cached, st')" and "cached \<noteq> []"
    and "dmin = Min ((\<lambda>c. cosine cfg q (cs_embedding c)) ` set cached)"
    and "embedding f = Some emb" and "usable studs \<noteq> []"
    and "emin = Min (student_distance cfg emb ` set (usable studs))"
  shows "(\<exists>best. find_best_match_optimized cfg now q threshold st = ((best, Num dmin), st')
           \<and> (best \<noteq> None \<longleftrightarrow> dmin < threshold)
           \<and> (dmin = threshold \<longrightarrow> best = None)
           \<and> (\<forall>c. best = Some c \<longrightarrow> c \<in> set cached \<and> cosine cfg q (cs_embedding c) = dmin))
         \<and> (\<exists>r. snd (snd (mark_face cfg t sd studs f (already, s, rs))) = rs @ [r]
           \<and> fr_distance r = Some emin
           \<and> (fr_match r \<noteq> None \<longleftrightarrow> emin < THRESHOLD cfg)
           \<and> (fr_status r = NoMatch \<longleftrightarrow> \<not> emin < THRESHOLD cfg)
           \<and> (emin = THRESHOLD cfg \<longrightarrow> fr_match r = None \<and> fr_status r = NoMatch)
           \<and> (\<forall>i n. fr_match r = Some (i, n) \<longrightarrow>
                 (\<exists>student\<in>set (usable studs).
                    st_student_id student = i \<and> st_student_name student = n
                    \<and> student_distance cfg emb student = emin)))"
proof -
  from nearest_from_inf[OF assms(2), of cfg q] obtain c where
    c: "c \<in> set cached"
       "nearest cfg q cached (None, PosInf) = (Some c, Num dmin)"
       "cosine cfg q (cs_embedding c) = dmin"
    unfolding assms(3) by blast
  have eq: "find_best_match_optimized cfg now q threshold st
              = ((if dmin < threshold then Some c else None, Num dmin), st')"
    using assms(1,2) c(2) by (simp add: find_best_match_optimized_def best_of_def)
  have demo: "\<exists>best. find_best_match_optimized cfg now q threshold st = ((best, Num dmin), st')
           \<and> (best \<noteq> None \<longleftrightarrow> dmin < threshold)
           \<and> (dmin = threshold \<longrightarrow> best = None)
           \<and> (\<forall>c. best = Some c \<longrightarrow> c \<in> set cached \<and> cosine cfg q (cs_embedding c) = dmin)"
    by (rule exI[of _ "if dmin < threshold then Some c else None"]) (simp add: eq c)
  from best_student_from_inf[OF assms(5), of cfg emb] obtain student where
    st: "student \<in> set (usable studs)"
        "best_student cfg emb studs (None, PosInf) = (Some student, Num emin)"
        "student_distance cfg emb student = emin"
    unfolding assms(6) by blast
  from mark_face_scan[OF assms(4) st(2), of t sd already s rs] obtain r where
    r: "snd (snd (mark_face cfg t sd studs f (already, s, rs))) = rs @ [r]"
       "fr_distance r = Some emin"
       "if emin < THRESHOLD cfg
        then fr_match r = Some (st_student_id student, st_student_name student)
             \<and> fr_status r \<noteq> NoMatch
        else fr_match r = None \<and> fr_status r = NoMatch"
    by (elim exE conjE)
  have mark: "\<exists>r. snd (snd (mark_face cfg t sd studs f (already, s, rs))) = rs @ [r]
           \<and> fr_distance r = Some emin
           \<and> (fr_match r \<noteq> None \<longleftrightarrow> emin < THRESHOLD cfg)
           \<and> (fr_status r = NoMatch \<longleftrightarrow> \<not> emin < THRESHOLD cfg)
           \<and> (emin = THRESHOLD cfg \<longrightarrow> fr_match r = None \<and> fr_status r = NoMatch)
           \<and> (\<forall>i n. fr_match r = Some (i, n) \<longrightarrow>
                 (\<exists>student\<in>set (usable studs).
                    st_student_id student = i \<and> st_student_name student = n
                    \<and> student_distance cfg emb student = emin))"
  proof (rule exI[of _ r], cases "emin < THRESHOLD cfg")
    case True
    with r st(1,3) show "snd (snd (mark_face cfg t sd studs f (already, s, rs))) = rs @ [r]
           \<and> fr_distance r = Some emin
           \<and> (fr_match r \<noteq> None \<longleftrightarrow> emin < THRESHOLD cfg)
           \<and> (fr_status r = NoMatch \<longleftrightarrow> \<not> emin < THRESHOLD cfg)
           \<and> (emin = THRESHOLD cfg \<longrightarrow> fr_match r = None \<and> fr_status r = NoMatch)
           \<and> (\<forall>i n. fr_match r = Some (i, n) \<longrightarrow>
                 (\<exists>student\<in>set (usable studs).
                    st_student_id student = i \<and> st_student_name student = n
                    \<and> student_distance cfg emb student = emin))"
      by auto
  next
    case False
    with r show "snd (snd (mark_face cfg t sd studs f (already, s, rs))) = rs @ [r]
           \<and> fr_distance r = Some emin
           \<and> (fr_match r \<noteq> None \<longleftrightarrow> emin < THRESHOLD cfg)
           \<and> (fr_status r = NoMatch \<longleftrightarrow> \<not> emin < THRESHOLD cfg)
           \<and> (emin = THRESHOLD cfg \<longrightarrow> fr_match r = None \<and> fr_status r = NoMatch)
           \<and> (\<forall>i n. fr_match r = Some (i, n) \<longrightarrow>
                 (\<exists>student\<in>set (usable studs).
                    st_student_id student = i \<and> st_student_name student = n
                    \<and> student_distance cfg emb student = emin))"
      by simp
  qed
  from demo mark show ?thesis ..
qed

theorem find_best_match_strict_threshold_witness:
  "(\<exists>best. find_best_match_optimized room_config 50 probe (6 / 10) (cold_cache, hall_registry)
             = ((best, Num (6 / 10)),
                snd (get_embeddings room_config 50 (cold_cache, hall_registry)))
         \<and> best = None)
   \<and> (\<exists>r. snd (snd (mark_face room_config 200 cs_session [carol, dave] (face_of probe)
                       (Map.empty, hall, []))) = [r]
         \<and> fr_distance r = Some (6 / 10) \<and> fr_match r = None \<and> fr_status r = NoMatch)"
proof -
  define cached where "cached = fst (get_embeddings room_config 50 (cold_cache, hall_registry))"
  have val: "cached = [\<lparr>cs_embedding = [1, 0, 0, 0], cs_studentId = ''S3'', cs_studentName = ''Carol''\<rparr>,
                      \<lparr>cs_embedding = [0, 0, 0, 1], cs_studentId = ''S4'', cs_studentName = ''Dave''\<rparr>]"
    by (simp add: cached_def get_embeddings_def cold_cache_def hall_registry_def col_find_def
        all_students_def matches_filter_def carol_def dave_def room_config_def mean_vec_def)
  have h1: "get_embeddings room_config 50 (cold_cache, hall_registry)
              = (cached, snd (get_embeddings room_config 50 (cold_cache, hall_registry)))"
    by (simp add: cached_def)
  have h2: "cached \<noteq> []" by (simp add: val)
  have h3: "(6 / 10 :: real) = Min ((\<lambda>c. cosine room_config probe (cs_embedding c)) ` set cached)"
    by (simp add: val room_config_def cosine_distance_def dot_def probe_def)
  have h4: "embedding (face_of probe) = Some probe" by (simp add: face_of_def)
  have u: "usable [carol, dave] = [carol, dave]"
    by (simp add: usable_def stored_of_def carol_def dave_def)
  have h5: "usable [carol, dave] \<noteq> []" by (simp add: u)
  have h6: "(6 / 10 :: real) = Min (student_distance room_config probe ` set (usable [carol, dave]))"
    by (simp add: u probe_eval)
  have th: "THRESHOLD room_config = 6 / 10" by (simp add: room_config_def)
  note T = find_best_match_strict_threshold[OF h1 h2 h3 h4 h5 h6,
      where threshold="6 / 10" and t="200" and sd=cs_session and already=Map.empty
        and s=hall and rs="[]"]
  from T have "\<exists>best. find_best_match_optimized room_config 50 probe (6 / 10) (cold_cache, hall_registry)
             = ((best, Num (6 / 10)),
                snd (get_embeddings room_config 50 (cold_cache, hall_registry)))
         \<and> best = None"
    by auto
  moreover from T have "\<exists>r. snd (snd (mark_face room_config 200 cs_session [carol, dave] (face_of probe)
                       (Map.empty, hall, []))) = [r]
         \<and> fr_distance r = Some (6 / 10) \<and> fr_match r = None \<and> fr_status r = NoMatch"
    by (auto simp: th)
  ultimately show ?thesis ..
qed

subsection \<open>Cache refresh, and the scope of the candidates\<close>

lemma attendance_cache_refreshes:
  assumes "k \<notin> dom (cached_embeddings cache)
           \<or> now - (case last_update cache k of None \<Rightarrow> 0 | Some t \<Rightarrow> t) > 600"
  shows "snd (snd (get_session_embeddings cfg now k (cache, col)))
           = col\<lparr>col_finds := col_finds col @ [k]\<rparr>"
  using assms
  by (auto simp: get_session_embeddings_def cache_duration_def col_find_def)

lemma attendance_cache_serves_fresh:
  assumes "cached_embeddings cache k = Some entry"
    and "\<not> now - (case last_update cache k of None \<Rightarrow> 0 | Some t \<Rightarrow> t) > 600"
  shows "get_session_embeddings cfg now k (cache, col) = (Inr entry, cache, col)"
  using assms
  by (auto simp: get_session_embeddings_def cache_duration_def)

lemma attendance_cache_raises:
  assumes "k \<notin> dom (cached_embeddings cache)
           \<or> now - (case last_update cache k of None \<Rightarrow> 0 | Some t \<Rightarrow> t) > 600"
    and "\<not> col_reachable col"
  shows "fst (get_session_embeddings cfg now k (cache, col)) = Inl ''store unreachable''"
  using assms
  by (auto simp: get_session_embeddings_def cache_duration_def col_find_def)

lemma demo_cache_keeps_last:
  assumes "student_embeddings cache = Some kept" and "\<not> col_reachable col"
  shows "fst (get_embeddings cfg now (cache, col)) = kept"
  using assms
  by (auto simp: get_embeddings_def col_find_def)

text \<open>
  C8. The first half holds: \<open>get_session_embeddings\<close> queries the store exactly when the
  entry is absent or older than 600 seconds (\<open>attendance_cache_refreshes\<close>,
  \<open>attendance_cache_serves_fresh\<close>). The second half fails for this cache: with an entry
  cached at time 0, a call at time 601 and the store out of reach, the query is attempted
  and its exception leaves the function; the cached entry is not returned. The cache of
  the demo endpoint, \<open>get_embeddings\<close>, catches the exception and does return its last
  list (\<open>demo_cache_keeps_last\<close>).
\<close>

theorem attendance_cache_refresh_failure_raises:
  "cached_embeddings stale_cache (session_student_filter cs_session) = Some [alice_entry]
   \<and> get_session_embeddings room_config 601 (session_student_filter cs_session)
         (stale_cache, offline_registry)
       = (Inl ''store unreachable'', stale_cache,
          offline_registry\<lparr>col_finds := [session_student_filter cs_session]\<rparr>)
   \<and> fst (get_embeddings room_config 601 (warm_cache, offline_registry))
       = [\<lparr>cs_embedding = [1, 0], cs_studentId = ''S1'', cs_studentName = ''Alice''\<rparr>]"
  by (simp add: get_session_embeddings_def get_embeddings_def stale_cache_def warm_cache_def
      offline_registry_def registry_def col_find_def cache_duration_def ec_cache_duration_def
      session_student_filter_def cs_session_def)

theorem attendance_cache_refresh_failure_raises_witness:
  "fst (get_session_embeddings room_config 601 (session_student_filter cs_session)
          (stale_cache, offline_registry)) = Inl ''store unreachable''
   \<and> col_finds (snd (snd (get_session_embeddings room_config 601
                              (session_student_filter cs_session)
                              (stale_cache, offline_registry))))
       = [session_student_filter cs_session]"
  using attendance_cache_refresh_failure_raises by simp

text \<open>
  C4. The session of the room is for department CS, year 2, division A; Bob is a student of
  department EE, outside that scope. A photo of Bob sent to \<open>/real-mark\<close> for the session
  is matched against all students with embeddings and marks Bob present. The helper
  \<open>find_best_match_optimized_attendance\<close>, which filters the candidates by the session's
  scope, finds no match for the same embedding.
\<close>

theorem real_mark_ignores_scope:
  "\<not> matches_filter (session_student_filter cs_session) bob
   \<and> statuses_of (fst (real_mark room_config 200 (photo [[0, 1]]) room)) = [MarkedPresent]
   \<and> map ar_student_enrollment (attendance (snd (real_mark room_config 200 (photo [[0, 1]]) room)))
       = [''S2'']
   \<and> fst (find_best_match_optimized_attendance room_config 200 [0, 1] cs_session (6 / 10)
             (empty_cache, registry))
       = Inr (None, Num 1)"
  by (simp add: real_mark_def scen ops matches_filter_def session_student_filter_def
      find_best_match_optimized_attendance_def get_session_embeddings_def empty_cache_def
      registry_def col_find_def cache_duration_def best_of_def)

section \<open>Properties of the session operations\<close>

lemma create_session_rejects:
  assumes "supabase_configured cfg" and "cr_duration_minutes data = Some (JInt d)"
    and "d < 5 \<or> d > 120"
  shows "create_session cfg now data s
           = (CreateError 400 ''Duration must be between 5-120 minutes'', s)"
  using assms by (auto simp: create_session_def)

lemma create_session_passes:
  assumes "supabase_configured cfg" and "cr_duration_minutes data = Some (JInt d)"
    and "5 \<le> d" and "d \<le> 120"
  shows "(\<forall>msg. fst (create_session cfg now data s) \<noteq> CreateError 400 msg)
         \<and> ((\<forall>tbl row. session_insert cfg tbl row = Inserted) \<longrightarrow>
              (\<exists>doc. fst (create_session cfg now data s) = Created doc
                      \<and> sd_duration_minutes doc = d))"
  using assms
  by (auto simp: create_session_def Let_def insert_session_def
      split: prod.splits insert_reply.splits)

text \<open>
  C7. With the store configured and an integer \<open>duration_minutes\<close> in the request,
  \<open>create_session\<close> answers with status 400 exactly when the duration is below 5 or above
  120; in that case the answer is the validation error and the system is unchanged (no
  session row, no timer, no request to the store). A duration from 5 to 120 passes the
  check, and the session is created with that duration when the store accepts the row.
\<close>

theorem create_session_duration_bounds:
  assumes "supabase_configured cfg" and "cr_duration_minutes data = Some (JInt d)"
  shows "((\<exists>msg. fst (create_session cfg now data s) = CreateError 400 msg)
            \<longleftrightarrow> (d < 5 \<or> d > 120))
         \<and> (d < 5 \<or> d > 120 \<longrightarrow>
              create_session cfg now data s
                = (CreateError 400 ''Duration must be between 5-120 minutes'', s))
         \<and> (5 \<le> d \<and> d \<le> 120 \<and> (\<forall>tbl row. session_insert cfg tbl row = Inserted) \<longrightarrow>
              (\<exists>doc. fst (create_session cfg now data s) = Created doc
                      \<and> sd_duration_minutes doc = d))"
proof (cases "d < 5 \<or> d > 120")
  case True
  from create_session_rejects[OF assms True] True show ?thesis by auto
next
  case False
  then have "5 \<le> d" "d \<le> 120" by auto
  from create_session_passes[OF assms this] False show ?thesis by auto
qed

text \<open>
  A fractional duration is truncated by \<open>int(_)\<close> before the check: 120.5 is accepted as
  120 minutes.
\<close>

lemma create_session_truncates:
  "\<exists>doc. fst (create_session room_config 100 (class_request (Some (JFloat (241 / 2)))) room)
            = Created doc \<and> sd_duration_minutes doc = 120"
  by (simp add: create_session_def class_request_def room_config_def Let_def insert_session_def
      py_int_def split: prod.splits)


theorem create_session_duration_bounds_witness:
  "create_session room_config 100 (class_request (Some (JInt 4))) room
     = (CreateError 400 ''Duration must be between 5-120 minutes'', room)
   \<and> create_session room_config 100 (class_request (Some (JInt 121))) room
     = (CreateError 400 ''Duration must be between 5-120 minutes'', room)
   \<and> (\<exists>doc. fst (create_session room_config 100 (class_request (Some (JInt 5))) room) = Created doc
              \<and> sd_duration_minutes doc = 5)
   \<and> (\<exists>doc. fst (create_session room_config 100 (class_request (Some (JInt 120))) room) = Created doc
              \<and> sd_duration_minutes doc = 120)"
proof -
  have cfg: "supabase_configured room_config" by (simp add: room_config_def)
  have ins: "\<forall>tbl row. session_insert room_config tbl row = Inserted"
    by (simp add: room_config_def)
  have d: "\<And>d. cr_duration_minutes (class_request (Some (JInt d))) = Some (JInt d)"
    by (simp add: class_request_def)
  from create_session_duration_bounds[OF cfg d, where d=4 and now=100 and s=room]
       create_session_duration_bounds[OF cfg d, where d=121 and now=100 and s=room]
       create_session_duration_bounds[OF cfg d, where d=5 and now=100 and s=room]
       create_session_duration_bounds[OF cfg d, where d=120 and now=100 and s=room] ins
  show ?thesis by simp
qed

subsection \<open>Manual end and the auto-close timer\<close>

lemmas sess_ops = run_def create_session_def end_session_def get_session_status_def
  fire_timers_def auto_close_session_def update_session_def insert_session_def
  select_students_of_class_def select_session_def log_call_def Let_def py_int_def str_int_def

text \<open>
  C3, as stated, fails. A session is created at time 0 for 20 minutes and ended by hand at
  time 300. The timer started at creation is still pending after the manual end, and when
  it fires at time 1200 it updates the session's row again (\<open>ended_at\<close> changes from
  unset to 1200).
\<close>

theorem end_session_keeps_timer_counterexample:
  "timers (run room_config lesson school) = [(1200, ''session_0'')]
   \<and> map sr_status (sessions (run room_config lesson school)) = [''ended'']
   \<and> map sr_ended_at (sessions (run room_config lesson school)) = [None]
   \<and> map sr_ended_at (sessions (run room_config (lesson @ [(1200, TimersFire)]) school))
       = [Some 1200]"
  by (simp add: lesson_def school_def class_request_def room_config_def alice_def bob_def sess_ops)

lemma update_session_timers [simp]: "timers (snd (update_session sid f s)) = timers s"
  by (simp add: update_session_def log_call_def)

lemma update_session_sessions:
  "sessions (snd (update_session sid f s))
     = map (\<lambda>r. if sr_session_id r = sid then f r else r) (sessions s)"
  by (simp add: update_session_def log_call_def)

lemma end_session_timers: "timers (snd (end_session cfg now sid s)) = timers s"
  by (simp add: end_session_def split: option.splits prod.splits)
     (auto simp: update_session_def log_call_def)

lemma end_session_sessions:
  assumes "supabase_configured cfg" and "sid \<noteq> []"
  shows "sessions (snd (end_session cfg now (Some sid) s))
           = map (\<lambda>r. if sr_session_id r = sid
                       then r\<lparr>sr_status := ''ended'', sr_end_time := Some now\<rparr> else r)
               (sessions s)"
  using assms
  by (simp add: end_session_def split: prod.splits) (auto simp: update_session_def log_call_def)

lemma fire_fold_sessions:
  "sessions (foldl (\<lambda>s' t. auto_close_session (snd t) now s') s due)
     = map (\<lambda>r. if sr_session_id r \<in> snd ` set due
                 then r\<lparr>sr_status := ''ended'', sr_ended_at := Some now\<rparr> else r)
         (sessions s)"
proof (induction due arbitrary: s)
  case Nil
  show ?case by simp
next
  case (Cons t due)
  have one: "sessions (auto_close_session (snd t) now s)
               = map (\<lambda>r. if sr_session_id r = snd t
                           then r\<lparr>sr_status := ''ended'', sr_ended_at := Some now\<rparr> else r)
                   (sessions s)"
    by (simp add: auto_close_session_def update_session_sessions)
  have "sessions (foldl (\<lambda>s' t. auto_close_session (snd t) now s') s (t # due))
          = map (\<lambda>r. if sr_session_id r \<in> snd ` set due
                      then r\<lparr>sr_status := ''ended'', sr_ended_at := Some now\<rparr> else r)
              (sessions (auto_close_session (snd t) now s))"
    by (simp only: foldl.simps Cons.IH)
  also have "\<dots> = map (\<lambda>r. if sr_session_id r \<in> snd ` set (t # due)
                      then r\<lparr>sr_status := ''ended'', sr_ended_at := Some now\<rparr> else r)
              (sessions s)"
    by (simp add: one)
  finally show ?case .
qed

lemma fire_fold_timers:
  "timers (foldl (\<lambda>s' t. auto_close_session (snd t) now s') s due) = timers s"
  by (induction due arbitrary: s) (simp_all add: auto_close_session_def)

lemma fire_timers_sessions:
  "sessions (fire_timers now s)
     = map (\<lambda>r. if sr_session_id r \<in> snd ` {t \<in> set (timers s). fst t \<le> now}
                 then r\<lparr>sr_status := ''ended'', sr_ended_at := Some now\<rparr> else r)
         (sessions s)"
  by (simp add: fire_timers_def fire_fold_sessions)

lemma fire_timers_timers:
  "timers (fire_timers now s) = filter (\<lambda>t. now < fst t) (timers s)"
  by (simp add: fire_timers_def fire_fold_timers)

text \<open>
  C3, amended. \<open>end_session\<close> leaves the started timers as they are. After a manual end
  at \<open>now\<close> every row of the session has status \<open>ended\<close> and end time \<open>now\<close>; when a
  timer of the session that is still pending comes due and fires at \<open>t\<close>, the callback
  updates the rows of the session again: they have status \<open>ended\<close>, the end time of the
  manual end, and \<open>ended_at = t\<close>; the timer is then no longer pending.
\<close>

theorem manual_end_then_auto_close:
  assumes "supabase_configured cfg" and "sid \<noteq> []"
    and "(due, sid) \<in> set (timers s)" and "due \<le> t"
    and "s_end = snd (end_session cfg now (Some sid) s)"
    and "s_fire = fire_timers t s_end"
  shows "timers s_end = timers s
         \<and> (\<forall>r\<in>set (sessions s_end). sr_session_id r = sid \<longrightarrow>
               sr_status r = ''ended'' \<and> sr_end_time r = Some now)
         \<and> (\<forall>r\<in>set (sessions s_fire). sr_session_id r = sid \<longrightarrow>
               sr_status r = ''ended'' \<and> sr_end_time r = Some now \<and> sr_ended_at r = Some t)
         \<and> (due, sid) \<notin> set (timers s_fire)"
proof -
  have t1: "timers s_end = timers s" by (simp add: assms(5) end_session_timers)
  have in_due: "sid \<in> snd ` {x \<in> set (timers s_end). fst x \<le> t}"
    using assms(3,4) t1 by force
  let ?g = "\<lambda>r. if sr_session_id r = sid
                 then r\<lparr>sr_status := ''ended'', sr_end_time := Some now\<rparr> else r"
  have ss: "sessions s_end = map ?g (sessions s)"
    unfolding assms(5) by (rule end_session_sessions[OF assms(1,2)])
  have a: "\<forall>r\<in>set (sessions s_end). sr_session_id r = sid \<longrightarrow>
               sr_status r = ''ended'' \<and> sr_end_time r = Some now"
  proof (intro ballI impI)
    fix r assume r: "r \<in> set (sessions s_end)" and k: "sr_session_id r = sid"
    from r have "r \<in> ?g ` set (sessions s)" unfolding ss by simp
    then obtain r0 where r0: "r = ?g r0" ..
    show "sr_status r = ''ended'' \<and> sr_end_time r = Some now"
    proof (cases "sr_session_id r0 = sid")
      case True
      then show ?thesis by (simp add: r0)
    next
      case False
      with k r0 show ?thesis by simp
    qed
  qed
  have b: "\<forall>r\<in>set (sessions s_fire). sr_session_id r = sid \<longrightarrow>
               sr_status r = ''ended'' \<and> sr_end_time r = Some now \<and> sr_ended_at r = Some t"
    using a in_due by (auto simp: assms(6) fire_timers_sessions)
  have c: "(due, sid) \<notin> set (timers s_fire)"
    using assms(4) by (simp add: assms(6) fire_timers_timers)
  show ?thesis
    by (intro conjI) (rule t1, rule a, rule b, rule c)
qed


theorem manual_end_then_auto_close_witness:
  "(1200, ''session_0'') \<in> set (timers (run room_config [(0, CreateSession (class_request (Some (JInt 20))))] school))
   \<and> timers (run room_config lesson school)
       = timers (run room_config [(0, CreateSession (class_request (Some (JInt 20))))] school)
   \<and> (1200, ''session_0'') \<notin> set (timers (run room_config (lesson @ [(1200, TimersFire)]) school))
   \<and> list_all (\<lambda>r. sr_status r = ''ended'' \<and> sr_end_time r = Some 300 \<and> sr_ended_at r = Some 1200)
         (sessions (run room_config (lesson @ [(1200, TimersFire)]) school))"
proof -
  define s where "s = run room_config [(0, CreateSession (class_request (Some (JInt 20))))] school"
  define s1 where "s1 = snd (end_session room_config 300 (Some ''session_0'') s)"
  define s2 where "s2 = fire_timers 1200 s1"
  have r1: "run room_config lesson school = s1"
    by (simp add: s1_def s_def lesson_def run_def)
  have r2: "run room_config (lesson @ [(1200, TimersFire)]) school = s2"
    by (simp add: s2_def s1_def s_def lesson_def run_def)
  have h1: "supabase_configured room_config" by (simp add: room_config_def)
  have h3: "(1200, ''session_0'') \<in> set (timers s)"
    by (simp add: s_def school_def class_request_def room_config_def alice_def bob_def sess_ops)
  have ids: "\<forall>r\<in>set (sessions s2). sr_session_id r = ''session_0''"
    unfolding r2[symmetric]
    by (simp add: lesson_def school_def class_request_def room_config_def alice_def bob_def sess_ops)
  have h2: "''session_0'' \<noteq> []" and h4: "(1200::real) \<le> 1200" by simp_all
  note T = manual_end_then_auto_close[where cfg=room_config and sid="''session_0''"
      and due=1200 and t=1200 and now=300 and s=s and s_end=s1 and s_fire=s2,
      OF h1 h2 h3 h4 s1_def s2_def]
  have t1: "timers s1 = timers s" using T by simp
  have t2: "(1200, ''session_0'') \<notin> set (timers s2)" using T by simp
  have t3: "\<forall>r\<in>set (sessions s2). sr_session_id r = ''session_0'' \<longrightarrow>
               sr_status r = ''ended'' \<and> sr_end_time r = Some 300 \<and> sr_ended_at r = Some 1200"
    using T by simp
  have t4: "list_all (\<lambda>r. sr_status r = ''ended'' \<and> sr_end_time r = Some 300 \<and> sr_ended_at r = Some 1200)
         (sessions s2)"
    unfolding list_all_iff
  proof
    fix r assume r: "r \<in> set (sessions s2)"
    with ids have k: "sr_session_id r = ''session_0''" ..
    from t3 r have "sr_session_id r = ''session_0'' \<longrightarrow>
               sr_status r = ''ended'' \<and> sr_end_time r = Some 300 \<and> sr_ended_at r = Some 1200" ..
    then show "sr_status r = ''ended'' \<and> sr_end_time r = Some 300 \<and> sr_ended_at r = Some 1200"
      using k ..
  qed
  show ?thesis
    unfolding r1 r2 s_def[symmetric]
    by (intro conjI) (rule h3, rule t1, rule t2, rule t4)
qed

lemma keeps_ended_refl: "keeps_ended s s"
  by (simp add: keeps_ended_def)

lemma keeps_ended_trans:
  assumes "keeps_ended a b" and "keeps_ended b c"
  shows "keeps_ended a c"
proof -
  from assms have len: "length (sessions a) \<le> length (sessions b)"
      "length (sessions b) \<le> length (sessions c)"
    by (simp_all add: keeps_ended_def)
  have "\<And>i. i < length (sessions a) \<Longrightarrow>
         sr_session_id (sessions c ! i) = sr_session_id (sessions a ! i) \<and>
         (sr_status (sessions a ! i) = ''ended'' \<longrightarrow> sr_status (sessions c ! i) = ''ended'')"
  proof -
    fix i assume i: "i < length (sessions a)"
    with len have i': "i < length (sessions b)" by simp
    from assms(1) i have ab: "sr_session_id (sessions b ! i) = sr_session_id (sessions a ! i)"
        "sr_status (sessions a ! i) = ''ended'' \<longrightarrow> sr_status (sessions b ! i) = ''ended''"
      unfolding keeps_ended_def by blast+
    from assms(2) i' have bc: "sr_session_id (sessions c ! i) = sr_session_id (sessions b ! i)"
        "sr_status (sessions b ! i) = ''ended'' \<longrightarrow> sr_status (sessions c ! i) = ''ended''"
      unfolding keeps_ended_def by blast+
    from ab bc show "sr_session_id (sessions c ! i) = sr_session_id (sessions a ! i) \<and>
         (sr_status (sessions a ! i) = ''ended'' \<longrightarrow> sr_status (sessions c ! i) = ''ended'')"
      by simp
  qed
  with len show ?thesis unfolding keeps_ended_def by simp
qed

lemma keeps_ended_same: "sessions s' = sessions s \<Longrightarrow> keeps_ended s s'"
  by (simp add: keeps_ended_def)

lemma keeps_ended_append: "sessions s' = sessions s @ rows \<Longrightarrow> keeps_ended s s'"
  by (simp add: keeps_ended_def nth_append)

lemma keeps_ended_map:
  assumes "sessions s' = map f (sessions s)"
    and "\<And>r. sr_session_id (f r) = sr_session_id r"
    and "\<And>r. sr_status r = ''ended'' \<Longrightarrow> sr_status (f r) = ''ended''"
  shows "keeps_ended s s'"
  using assms by (simp add: keeps_ended_def)

subsection \<open>Ending a session that has ended\<close>

text \<open>
  C6, as stated, fails. \<open>end_session\<close> on a session that is already \<open>ended\<close> succeeds
  but overwrites the stored end time (400 becomes 500, the time of the call), and on a
  session with status \<open>finalized\<close> it sets the status to \<open>ended\<close>.
\<close>

theorem end_session_not_idempotent_counterexample:
  "fst (end_session room_config 500 (Some ''session_100'') (closed_room ''ended'')) = EndOk
   \<and> map sr_end_time (sessions (closed_room ''ended'')) = [Some 400]
   \<and> map sr_end_time
         (sessions (snd (end_session room_config 500 (Some ''session_100'') (closed_room ''ended''))))
       = [Some 500]
   \<and> map sr_status (sessions (closed_room ''finalized'')) = [''finalized'']
   \<and> map sr_status
         (sessions (snd (end_session room_config 500 (Some ''session_100'')
                           (closed_room ''finalized''))))
       = [''ended'']"
  by (simp add: closed_room_def room_def cs_session_def room_config_def end_session_def
      update_session_def log_call_def)

lemma mark_face_sessions:
  "sessions (fst (snd (mark_face cfg now sd studs f (already, s, rs)))) = sessions s"
  by (auto simp: mark_face_def Let_def select_attendance_of_student_def insert_attendance_def
      log_call_def split: option.splits prod.splits if_splits insert_reply.splits)

lemma mark_faces_sessions:
  "sessions (fst (snd (mark_faces cfg now sd studs fs st))) = sessions (fst (snd st))"
proof (induction fs arbitrary: st)
  case Nil
  show ?case by simp
next
  case (Cons f fs)
  obtain a s rs where st: "st = (a, s, rs)" by (cases st)
  show ?case
    by (simp add: Cons.IH st mark_face_sessions)
qed

lemma real_mark_sessions: "sessions (snd (real_mark cfg now req s)) = sessions s"
proof -
  have loop: "\<And>sd studs fs a s0 rs. sessions (fst (snd (mark_faces cfg now sd studs fs (a, s0, rs))))
                 = sessions s0"
    by (simp add: mark_faces_sessions)
  show ?thesis
    unfolding real_mark_def
    by (auto simp: select_session_def select_attendance_of_session_def
        select_students_with_embeddings_def log_call_def
        simp del: mark_faces.simps
        split: option.splits prod.splits image_outcome.splits list.splits
        dest!: arg_cong[where f="\<lambda>p. sessions (fst (snd p))"])
       (simp_all add: loop)
qed

lemma create_session_sessions:
  "\<exists>rows. sessions (snd (create_session cfg now data s)) = sessions s @ rows"
  by (auto simp: create_session_def Let_def insert_session_def select_students_of_class_def
      log_call_def split: prod.splits insert_reply.splits if_splits)

lemma end_session_sessions_any:
  "sessions (snd (end_session cfg now sid s)) = sessions s
   \<or> (\<exists>k. sessions (snd (end_session cfg now sid s))
          = map (\<lambda>r. if sr_session_id r = k
                      then r\<lparr>sr_status := ''ended'', sr_end_time := Some now\<rparr> else r)
              (sessions s))"
proof (cases sid)
  case None
  then show ?thesis by (simp add: end_session_def)
next
  case (Some k)
  show ?thesis
  proof (cases "k \<noteq> [] \<and> supabase_configured cfg")
    case True
    then have "sessions (snd (end_session cfg now sid s))
          = map (\<lambda>r. if sr_session_id r = k
                      then r\<lparr>sr_status := ''ended'', sr_end_time := Some now\<rparr> else r)
              (sessions s)"
      using end_session_sessions[of cfg k now s] Some by simp
    then show ?thesis by (intro disjI2 exI)
  next
    case False
    then show ?thesis using Some by (auto simp: end_session_def)
  qed
qed

lemma get_session_status_sessions:
  "sessions (snd (get_session_status cfg now sid s)) = sessions s
   \<or> sessions (snd (get_session_status cfg now sid s))
        = map (\<lambda>r. if sr_session_id r = sid then r\<lparr>sr_status := ''ended''\<rparr> else r) (sessions s)"
  by (auto simp: get_session_status_def select_session_def update_session_def log_call_def
      split: list.splits option.splits prod.splits)


lemma step_keeps_ended: "keeps_ended s (step cfg ev s)"
proof -
  obtain now e where ev: "ev = (now, e)" by (cases ev)
  show ?thesis
  proof (cases e)
    case (CreateSession data)
    from create_session_sessions[of cfg now data s] obtain rows where
      "sessions (snd (create_session cfg now data s)) = sessions s @ rows" ..
    then show ?thesis by (simp add: ev CreateSession keeps_ended_append)
  next
    case (EndSession sid)
    from end_session_sessions_any[of cfg now sid s] show ?thesis
    proof
      assume "sessions (snd (end_session cfg now sid s)) = sessions s"
      then show ?thesis by (simp add: ev EndSession keeps_ended_same)
    next
      assume "\<exists>k. sessions (snd (end_session cfg now sid s))
          = map (\<lambda>r. if sr_session_id r = k
                      then r\<lparr>sr_status := ''ended'', sr_end_time := Some now\<rparr> else r)
              (sessions s)"
      then obtain k where "sessions (snd (end_session cfg now sid s))
          = map (\<lambda>r. if sr_session_id r = k
                      then r\<lparr>sr_status := ''ended'', sr_end_time := Some now\<rparr> else r)
              (sessions s)" ..
      then have "keeps_ended s (snd (end_session cfg now sid s))"
        by (rule keeps_ended_map) simp_all
      then show ?thesis by (simp add: ev EndSession)
    qed
  next
    case (GetStatus sid)
    from get_session_status_sessions[of cfg now sid s] show ?thesis
    proof
      assume "sessions (snd (get_session_status cfg now sid s)) = sessions s"
      then show ?thesis by (simp add: ev GetStatus keeps_ended_same)
    next
      assume "sessions (snd (get_session_status cfg now sid s))
        = map (\<lambda>r. if sr_session_id r = sid then r\<lparr>sr_status := ''ended''\<rparr> else r) (sessions s)"
      then have "keeps_ended s (snd (get_session_status cfg now sid s))"
        by (rule keeps_ended_map) simp_all
      then show ?thesis by (simp add: ev GetStatus)
    qed
  next
    case TimersFire
    have "keeps_ended s (fire_timers now s)"
      by (rule keeps_ended_map[OF fire_timers_sessions]) simp_all
    then show ?thesis by (simp add: ev TimersFire)
  next
    case (RealMark req)
    show ?thesis by (simp add: ev RealMark keeps_ended_same real_mark_sessions)
  qed
qed

lemma run_keeps_ended: "keeps_ended s (run cfg evs s)"
proof (induction evs arbitrary: s)
  case Nil
  show ?case by (simp add: run_def keeps_ended_refl)
next
  case (Cons ev evs)
  have "run cfg (ev # evs) s = run cfg evs (step cfg ev s)" by (simp add: run_def)
  with keeps_ended_trans[OF step_keeps_ended Cons.IH] show ?case by simp
qed

text \<open>
  C6, amended. For a session that has a row with status \<open>ended\<close>, \<open>end_session\<close> returns
  success; it sets status \<open>ended\<close> and the end time of the call on every row of that
  session id and changes no other row, so the row is found afterwards with its status and
  all other columns as before and the end time replaced by the time of the call. And over
  any sequence of operations of the engine (create, end, status query, timers firing,
  \<open>/real-mark\<close>), from any system, every session row keeps its place and its session id,
  and a row with status \<open>ended\<close> keeps that status.
\<close>

theorem ended_session_stays_ended:
  assumes "supabase_configured cfg" and "sid \<noteq> []"
    and "r \<in> set (sessions s)" and "sr_session_id r = sid" and "sr_status r = ''ended''"
  shows "fst (end_session cfg now (Some sid) s) = EndOk
         \<and> sessions (snd (end_session cfg now (Some sid) s))
             = map (\<lambda>r. if sr_session_id r = sid
                         then r\<lparr>sr_status := ''ended'', sr_end_time := Some now\<rparr> else r)
                 (sessions s)
         \<and> r\<lparr>sr_end_time := Some now\<rparr> \<in> set (sessions (snd (end_session cfg now (Some sid) s)))
         \<and> keeps_ended s' (run cfg evs s')"
proof -
  let ?g = "\<lambda>r. if sr_session_id r = sid
                 then r\<lparr>sr_status := ''ended'', sr_end_time := Some now\<rparr> else r"
  have ne: "filter (\<lambda>r. sr_session_id r = sid) (sessions s) \<noteq> []"
    using assms(3,4) by (auto simp: filter_empty_conv)
  have ok: "fst (end_session cfg now (Some sid) s) = EndOk"
    using assms(1,2) ne
    by (simp add: end_session_def update_session_def split: prod.splits)
  note ss = end_session_sessions[OF assms(1,2), of now s]
  have "?g r \<in> ?g ` set (sessions s)" using assms(3) by (rule imageI)
  then have "?g r \<in> set (sessions (snd (end_session cfg now (Some sid) s)))"
    unfolding ss by simp
  moreover have "r\<lparr>sr_status := ''ended''\<rparr> = r"
    using assms(5) by (cases r) simp
  moreover have "?g r = (r\<lparr>sr_status := ''ended''\<rparr>)\<lparr>sr_end_time := Some now\<rparr>"
    using assms(4) by simp
  ultimately have mem: "r\<lparr>sr_end_time := Some now\<rparr>
      \<in> set (sessions (snd (end_session cfg now (Some sid) s)))"
    by (simp only:)
  show ?thesis
    by (intro conjI) (rule ok, rule ss, rule mem, rule run_keeps_ended)
qed

theorem ended_session_stays_ended_witness:
  "fst (end_session room_config 500 (Some ''session_100'') (closed_room ''ended'')) = EndOk
   \<and> cs_session\<lparr>sr_status := ''ended'', sr_end_time := Some 500\<rparr>
       \<in> set (sessions (snd (end_session room_config 500 (Some ''session_100'')
                                (closed_room ''ended''))))
   \<and> keeps_ended (closed_room ''ended'')
        (run room_config [(500, EndSession (Some ''session_100'')),
                          (600, GetStatus ''session_100''),
                          (1300, TimersFire),
                          (1400, CreateSession (class_request (Some (JInt 20))))]
           (closed_room ''ended''))"
proof -
  have h1: "supabase_configured room_config" by (simp add: room_config_def)
  have h2: "''session_100'' \<noteq> []" by simp
  have h3: "cs_session\<lparr>sr_status := ''ended'', sr_end_time := Some 400\<rparr>
              \<in> set (sessions (closed_room ''ended''))"
    by (simp add: closed_room_def)
  have h4: "sr_session_id (cs_session\<lparr>sr_status := ''ended'', sr_end_time := Some 400\<rparr>)
              = ''session_100''"
    by (simp add: cs_session_def)
  have h5: "sr_status (cs_session\<lparr>sr_status := ''ended'', sr_end_time := Some 400\<rparr>) = ''ended''"
    by simp
  note T = ended_session_stays_ended[OF h1 h2 h3 h4 h5, where now=500
      and s'="closed_room ''ended''"
      and evs="[(500, EndSession (Some ''session_100'')),
                          (600, GetStatus ''session_100''),
                          (1300, TimersFire),
                          (1400, CreateSession (class_request (Some (JInt 20))))]"]
  have a: "fst (end_session room_config 500 (Some ''session_100'') (closed_room ''ended'')) = EndOk"
    by (rule T[THEN conjunct1])
  have b: "cs_session\<lparr>sr_status := ''ended'', sr_end_time := Some 500\<rparr>
       \<in> set (sessions (snd (end_session room_config 500 (Some ''session_100'')
                                (closed_room ''ended''))))"
    using T[THEN conjunct2, THEN conjunct2, THEN conjunct1] by simp
  show ?thesis
    by (intro conjI) (rule a, rule b, rule T[THEN conjunct2, THEN conjunct2, THEN conjunct2])
qed

end
